theory Spec2Isabelle
  imports Main "HOL-Library.Word" "HOL-Library.Multiset"
begin

section \<open>The evidence pool of evidence/pool.go\<close>

text \<open>
  A shallow embedding of \<^verbatim>\<open>evidence/pool.go\<close>. The pool is a record that every
  operation takes and returns; a Go panic is an outcome of its own, returned together
  with the pool as it stood when the panic was raised.
\<close>

subsection \<open>Integers, time, errors\<close>

type_synonym int64 = "64 word"

text \<open>
  Go's \<^verbatim>\<open>int64\<close> arithmetic wraps around and compares signed: \<^verbatim>\<open>a > b\<close> on
  \<^verbatim>\<open>int64\<close> is \<open>sint b < sint a\<close>.

  A \<^verbatim>\<open>time.Time\<close> is an instant, here the number of nanoseconds since the epoch as an
  unbounded integer. A \<^verbatim>\<open>time.Duration\<close> is an \<^verbatim>\<open>int64\<close> count of nanoseconds, and
  \<^verbatim>\<open>t.Sub(u)\<close> is the difference \<open>t - u\<close>, replaced by the smallest or the largest
  duration when it does not fit.
\<close>

type_synonym Time = int
type_synonym Duration = int64

definition minDuration :: int where
  "minDuration = - (2 ^ 63)"

definition maxDuration :: int where
  "maxDuration = 2 ^ 63 - 1"

definition Sub :: "Time \<Rightarrow> Time \<Rightarrow> Duration" where
  "Sub t u =
     (let d = t - u
      in if d < minDuration then word_of_int minDuration
         else if maxDuration < d then word_of_int maxDuration
         else word_of_int d)"

datatype EvidenceKind =
    DuplicateVoteEvidence
  | LunaticValidatorEvidence
  | PotentialAmnesiaEvidence
  | ConflictingHeadersEvidence

text \<open>
  \<^verbatim>\<open>types.Evidence\<close> is an interface; the pool uses its methods \<^verbatim>\<open>Height()\<close>,
  \<^verbatim>\<open>Time()\<close>, \<^verbatim>\<open>Address()\<close>, \<^verbatim>\<open>Hash()\<close> and two type tests: for the composite
  capability (conflicting headers) and for lunatic validator evidence.
\<close>

record Evidence =
  ev_Kind :: EvidenceKind
  ev_Height :: int64
  ev_Time :: Time
  ev_Address :: string
  ev_Hash :: string

definition isComposite :: "Evidence \<Rightarrow> bool" where
  "isComposite ev = (ev_Kind ev = ConflictingHeadersEvidence)"

datatype error =
    ErrNoValSetForHeight int64
  | ErrOther string
  | ErrDuplicateDigest
  | ErrCantLoadValidators int64 error
  | ErrNoBlockMeta int64
  | ErrDatabase error
  | ErrEvidenceAlreadyStored
  | ErrFailedToVerify Evidence error

datatype panic =
    SanityCheckFailed int64 int64
  | NilPointerDereference

datatype 'a outcome = Returns 'a | Panics panic

subsection \<open>Chain state, blocks, validators\<close>

record EvidenceParams =
  MaxAgeNumBlocks :: int64
  MaxAgeDuration :: Duration

record ConsensusParams =
  cp_Evidence :: EvidenceParams

record sm_State =
  LastBlockHeight :: int64
  LastBlockTime :: Time
  ConsensusParams :: ConsensusParams

record Block =
  blk_Height :: int64
  blk_Time :: Time
  blk_Evidence :: "Evidence list"

record Validator =
  val_Address :: string
  VotingPower :: int64

record ValidatorSet =
  Validators :: "Validator list"

record Header =
  hdr_Height :: int64
  hdr_AppHash :: string

record BlockMeta =
  bm_Header :: Header

text \<open>
  Modelled from the spec: \<^verbatim>\<open>types.ValidatorSet.GetByAddress\<close> is missing from the
  sources. The spec has the priority of a unit as the voting power of the accused
  validator in the loaded set, so the method is the lookup by address: the first
  validator of the set with the address, \<^verbatim>\<open>nil\<close> when there is none. The pool
  discards the index the method also returns.
\<close>

definition GetByAddress :: "ValidatorSet \<Rightarrow> string \<Rightarrow> Validator option" where
  "GetByAddress vals address = find (\<lambda>val. val_Address val = address) (Validators vals)"

type_synonym valToLastHeightMap = "string \<rightharpoonup> int64"

subsection \<open>Collaborators taken as parameters\<close>

text \<open>
  The state database with the functions of package \<^verbatim>\<open>sm\<close> that read it.
  \<^verbatim>\<open>sm.LoadValidators\<close> returns a pointer and an error; both are kept, so that the
  model decides nothing about which combinations occur.
\<close>

record StateDB =
  LoadValidators :: "int64 \<Rightarrow> ValidatorSet option \<times> error option"
  LoadState :: sm_State
  VerifyEvidence :: "sm_State \<Rightarrow> Evidence \<Rightarrow> Header option \<Rightarrow> error option"

record BlockStore =
  LoadBlockMeta :: "int64 \<Rightarrow> BlockMeta option"

text \<open>The two methods of \<^verbatim>\<open>types.CompositeEvidence\<close>.\<close>

record CompositeEvidence =
  VerifyComposite :: "Evidence \<Rightarrow> Header \<Rightarrow> ValidatorSet option \<Rightarrow> error option"
  Split :: "Evidence \<Rightarrow> Header \<Rightarrow> ValidatorSet option \<Rightarrow> valToLastHeightMap \<Rightarrow> Evidence list"

subsection \<open>The evidence store\<close>

text \<open>
  Modelled from the spec: \<^verbatim>\<open>evidence/store.go\<close> (the type \<^verbatim>\<open>Store\<close> with
  \<^verbatim>\<open>Has\<close>, \<^verbatim>\<open>addEvidence\<close>, \<^verbatim>\<open>MarkEvidenceAsCommitted\<close>, \<^verbatim>\<open>PendingEvidence\<close>,
  \<^verbatim>\<open>listEvidence\<close>, \<^verbatim>\<open>keyPending\<close>) is missing from the sources. The spec gives the
  store three namespaces: a pending index whose scan is by descending priority, ties in
  insertion order; a set of committed markers by digest; an out-queue. The pending index
  is kept in insertion order and sorted by the scan.
\<close>

record Store =
  pending :: "(int64 \<times> Evidence) list"
  committed :: "string list"
  outqueue :: "Evidence list"

text \<open>Modelled from the spec: \<^verbatim>\<open>keyPending\<close>; evidence identity is its digest.\<close>

definition keyPending :: "Evidence \<Rightarrow> string" where
  "keyPending ev = ev_Hash ev"

text \<open>Modelled from the spec: \<^verbatim>\<open>Store.Has\<close>, the digest existence check across all
  namespaces. The spec gives it no failure; the error the pool tests is always \<^verbatim>\<open>nil\<close>.\<close>

definition Store_Has :: "Store \<Rightarrow> Evidence \<Rightarrow> bool \<times> error option" where
  "Store_Has s ev =
     (ev_Hash ev \<in> set (map (\<lambda>(p, e). ev_Hash e) (pending s))
        \<or> ev_Hash ev \<in> set (committed s)
        \<or> ev_Hash ev \<in> set (map ev_Hash (outqueue s)),
      None)"

text \<open>Modelled from the spec: \<^verbatim>\<open>Store.addEvidence\<close> writes the pending-index entry and
  the out-queue entry in one step; a duplicate digest is an error.\<close>

definition Store_addEvidence :: "Store \<Rightarrow> Evidence \<Rightarrow> int64 \<Rightarrow> Store \<times> error option" where
  "Store_addEvidence s ev priority =
     (if fst (Store_Has s ev) then (s, Some ErrDuplicateDigest)
      else (s\<lparr>pending := pending s @ [(priority, ev)], outqueue := outqueue s @ [ev]\<rparr>, None))"

text \<open>Modelled from the spec: deleting one key of the pending index.\<close>

definition db_Delete :: "Store \<Rightarrow> string \<Rightarrow> Store" where
  "db_Delete s key = s\<lparr>pending := filter (\<lambda>(p, e). keyPending e \<noteq> key) (pending s)\<rparr>"

text \<open>Modelled from the spec: \<^verbatim>\<open>Store.MarkEvidenceAsCommitted\<close> adds the committed
  marker and removes the pending-index entry.\<close>

definition Store_MarkEvidenceAsCommitted :: "Store \<Rightarrow> Evidence \<Rightarrow> Store" where
  "Store_MarkEvidenceAsCommitted s ev =
     (db_Delete s (keyPending ev))\<lparr>committed := committed s @ [ev_Hash ev]\<rparr>"

text \<open>Modelled from the spec: the scan of the pending index, by descending priority and
  then insertion order (\<open>sort_key\<close> is a stable insertion sort).\<close>

definition pendingScan :: "Store \<Rightarrow> (int64 \<times> Evidence) list" where
  "pendingScan s = sort_key (\<lambda>(p, e). - sint p) (pending s)"

text \<open>Modelled from the spec: \<^verbatim>\<open>Store.listEvidence(baseKeyPending, maxNum)\<close>, up to
  \<open>maxNum\<close> entries of the scan, all of them when \<open>maxNum\<close> is negative.\<close>

definition Store_listEvidence :: "Store \<Rightarrow> int64 \<Rightarrow> Evidence list" where
  "Store_listEvidence s maxNum =
     (if sint maxNum < 0 then map snd (pendingScan s)
      else take (nat (sint maxNum)) (map snd (pendingScan s)))"

definition Store_PendingEvidence :: "Store \<Rightarrow> int64 \<Rightarrow> Evidence list" where
  "Store_PendingEvidence s maxNum = Store_listEvidence s maxNum"

subsection \<open>The pool\<close>

text \<open>
  Modelled from the spec: \<^verbatim>\<open>libs/clist\<close> is missing from the sources.
  \<^verbatim>\<open>evidenceList\<close> is the insertion-ordered sequence of its elements from front to
  back: \<^verbatim>\<open>PushBack\<close> appends at the tail; \<^verbatim>\<open>Remove\<close> takes one element out from
  any position, and the removed element loses its backward link only (the pool calls
  \<^verbatim>\<open>DetachPrev\<close>), so a traversal by \<^verbatim>\<open>Next\<close> that removes elements still visits
  every element once. The waiting and the concurrency of the list are not modelled.
\<close>

record Pool =
  store :: Store
  evidenceList :: "Evidence list"
  stateDB :: StateDB
  blockStore :: BlockStore
  valToLastHeight :: valToLastHeightMap
  state :: sm_State

definition State :: "Pool \<Rightarrow> sm_State" where
  "State evpool = state evpool"

definition PendingEvidence :: "Pool \<Rightarrow> int64 \<Rightarrow> Evidence list" where
  "PendingEvidence evpool maxNum = Store_PendingEvidence (store evpool) maxNum"

definition IsExpired :: "Pool \<Rightarrow> Evidence \<Rightarrow> bool" where
  "IsExpired evpool evidence =
     (let params = cp_Evidence (ConsensusParams (State evpool));
          ageDuration = Sub (LastBlockTime (State evpool)) (ev_Time evidence);
          ageNumBlocks = LastBlockHeight (State evpool) - ev_Height evidence
      in sint (MaxAgeNumBlocks params) < sint ageNumBlocks
         \<and> sint (MaxAgeDuration params) < sint ageDuration)"

definition evMapKey :: "Evidence \<Rightarrow> string" where
  "evMapKey ev = ev_Hash ev"

subsection \<open>AddEvidence\<close>

text \<open>
  Lines 131 to 150: the validator set at the height of the submitted evidence is loaded,
  and composite evidence is verified against the recorded header and split. The result
  is the loaded validator set with the list of units, or the error returned.
\<close>

definition AddEvidence_units ::
  "CompositeEvidence \<Rightarrow> Pool \<Rightarrow> Evidence \<Rightarrow> error + (ValidatorSet option \<times> Evidence list)" where
  "AddEvidence_units ce evpool evidence =
     (case LoadValidators (stateDB evpool) (ev_Height evidence) of
        (valSet, Some err) \<Rightarrow> Inl (ErrCantLoadValidators (ev_Height evidence) err)
      | (valSet, None) \<Rightarrow>
          if isComposite evidence then
            (case LoadBlockMeta (blockStore evpool) (ev_Height evidence) of
               None \<Rightarrow> Inl (ErrNoBlockMeta (ev_Height evidence))
             | Some blockMeta \<Rightarrow>
                 (case VerifyComposite ce evidence (bm_Header blockMeta) valSet of
                    Some err \<Rightarrow> Inl err
                  | None \<Rightarrow>
                      Inr (valSet,
                           Split ce evidence (bm_Header blockMeta) valSet (valToLastHeight evpool))))
          else Inr (valSet, [evidence]))"

text \<open>
  Lines 161 to 169: lunatic validator evidence needs the header recorded at its height.
\<close>

definition fetchHeader :: "Pool \<Rightarrow> Evidence \<Rightarrow> error + Header option" where
  "fetchHeader evpool ev =
     (if ev_Kind ev = LunaticValidatorEvidence then
        (case LoadBlockMeta (blockStore evpool) (ev_Height ev) of
           None \<Rightarrow> Inl (ErrNoBlockMeta (ev_Height ev))
         | Some blockMeta \<Rightarrow> Inr (Some (bm_Header blockMeta)))
      else Inr None)"

text \<open>
  Lines 176 to 178: \<^verbatim>\<open>_, val := valSet.GetByAddress(ev.Address())\<close> and
  \<^verbatim>\<open>priority := val.VotingPower\<close>. Reading the field of a \<^verbatim>\<open>nil\<close> validator, and
  calling the method on a \<^verbatim>\<open>nil\<close> validator set, panic.
\<close>

definition computePriority :: "ValidatorSet option \<Rightarrow> Evidence \<Rightarrow> int64 outcome" where
  "computePriority valSet ev =
     (case valSet of
        None \<Rightarrow> Panics NilPointerDereference
      | Some vals \<Rightarrow>
          (case GetByAddress vals (ev_Address ev) of
             None \<Rightarrow> Panics NilPointerDereference
           | Some val \<Rightarrow> Returns (VotingPower val)))"

text \<open>
  Lines 153 to 189, the body of the loop for one unit \<open>ev\<close>. It either ends the call
  (\<open>Inl\<close>: the error returned or the panic, with the pool at that point) or falls
  through to the next unit (\<open>Inr\<close>: the pool with the unit stored and pushed on the
  list). The existence check of line 153 is made on \<open>evidence\<close>, the evidence
  submitted, as the source has it.
\<close>

definition AddEvidence_unit ::
  "Pool \<Rightarrow> sm_State \<Rightarrow> ValidatorSet option \<Rightarrow> Evidence \<Rightarrow> Evidence
     \<Rightarrow> (error option outcome \<times> Pool) + Pool" where
  "AddEvidence_unit evpool st valSet evidence ev =
     (case snd (Store_Has (store evpool) evidence) of
        Some err \<Rightarrow> Inl (Returns (Some (ErrDatabase err)), evpool)
      | None \<Rightarrow>
          if fst (Store_Has (store evpool) evidence)
          then Inl (Returns (Some ErrEvidenceAlreadyStored), evpool)
          else
            (case fetchHeader evpool ev of
               Inl err \<Rightarrow> Inl (Returns (Some err), evpool)
             | Inr header \<Rightarrow>
                 (case VerifyEvidence (stateDB evpool) st ev header of
                    Some err \<Rightarrow> Inl (Returns (Some (ErrFailedToVerify ev err)), evpool)
                  | None \<Rightarrow>
                      (case computePriority valSet ev of
                         Panics pn \<Rightarrow> Inl (Panics pn, evpool)
                       | Returns priority \<Rightarrow>
                           (case snd (Store_addEvidence (store evpool) ev priority) of
                              Some err \<Rightarrow>
                                Inl (Returns (Some (ErrDatabase err)),
                                     evpool\<lparr>store := fst (Store_addEvidence (store evpool) ev priority)\<rparr>)
                            | None \<Rightarrow>
                                Inr (evpool\<lparr>store := fst (Store_addEvidence (store evpool) ev priority),
                                            evidenceList := evidenceList evpool @ [ev]\<rparr>))))))"

text \<open>Lines 152 to 192: the loop over the units, and \<^verbatim>\<open>return nil\<close> after it.\<close>

fun AddEvidence_loop ::
  "Pool \<Rightarrow> sm_State \<Rightarrow> ValidatorSet option \<Rightarrow> Evidence \<Rightarrow> Evidence list
     \<Rightarrow> error option outcome \<times> Pool" where
  "AddEvidence_loop evpool st valSet evidence [] = (Returns None, evpool)"
| "AddEvidence_loop evpool st valSet evidence (ev # evList) =
     (case AddEvidence_unit evpool st valSet evidence ev of
        Inl result \<Rightarrow> result
      | Inr evpool1 \<Rightarrow> AddEvidence_loop evpool1 st valSet evidence evList)"

definition AddEvidence ::
  "CompositeEvidence \<Rightarrow> Pool \<Rightarrow> Evidence \<Rightarrow> error option outcome \<times> Pool" where
  "AddEvidence ce evpool evidence =
     (let st = State evpool
      in case AddEvidence_units ce evpool evidence of
           Inl err \<Rightarrow> (Returns (Some err), evpool)
         | Inr (valSet, evList) \<Rightarrow> AddEvidence_loop evpool st valSet evidence evList)"

subsection \<open>Update\<close>

text \<open>
  The loop of \<^verbatim>\<open>removeEvidence\<close> over the list, from the front: an element is removed
  when its key is in the map of the block's evidence, or when both of its ages exceed
  their bounds. The function returns the elements that stay.
\<close>

fun removeEvidence_loop ::
  "int64 \<Rightarrow> Time \<Rightarrow> EvidenceParams \<Rightarrow> string set \<Rightarrow> Evidence list \<Rightarrow> Evidence list" where
  "removeEvidence_loop height lastBlockTime params blockEvidenceMap [] = []"
| "removeEvidence_loop height lastBlockTime params blockEvidenceMap (ev # es) =
     (let ageDuration = Sub lastBlockTime (ev_Time ev);
          ageNumBlocks = height - ev_Height ev
      in if evMapKey ev \<in> blockEvidenceMap
            \<or> (sint (MaxAgeDuration params) < sint ageDuration
                \<and> sint (MaxAgeNumBlocks params) < sint ageNumBlocks)
         then removeEvidence_loop height lastBlockTime params blockEvidenceMap es
         else ev # removeEvidence_loop height lastBlockTime params blockEvidenceMap es)"

definition removeEvidence ::
  "Pool \<Rightarrow> int64 \<Rightarrow> Time \<Rightarrow> EvidenceParams \<Rightarrow> string set \<Rightarrow> Pool" where
  "removeEvidence evpool height lastBlockTime params blockEvidenceMap =
     evpool\<lparr>evidenceList :=
       removeEvidence_loop height lastBlockTime params blockEvidenceMap (evidenceList evpool)\<rparr>"

text \<open>The first loop of \<^verbatim>\<open>MarkEvidenceAsCommitted\<close>: the store and the map it builds.\<close>

fun markCommitted_loop :: "Store \<Rightarrow> string set \<Rightarrow> Evidence list \<Rightarrow> Store \<times> string set" where
  "markCommitted_loop s blockEvidenceMap [] = (s, blockEvidenceMap)"
| "markCommitted_loop s blockEvidenceMap (ev # evs) =
     markCommitted_loop (Store_MarkEvidenceAsCommitted s ev)
       (insert (evMapKey ev) blockEvidenceMap) evs"

definition MarkEvidenceAsCommitted :: "Pool \<Rightarrow> int64 \<Rightarrow> Time \<Rightarrow> Evidence list \<Rightarrow> Pool" where
  "MarkEvidenceAsCommitted evpool height lastBlockTime evidence =
     (let (s, blockEvidenceMap) = markCommitted_loop (store evpool) {} evidence;
          evpool1 = evpool\<lparr>store := s\<rparr>;
          evidenceParams = cp_Evidence (ConsensusParams (State evpool1))
      in removeEvidence evpool1 height lastBlockTime evidenceParams blockEvidenceMap)"

text \<open>The loop of \<^verbatim>\<open>cleanupValToLastHeight\<close> over the validators of the set.\<close>

fun cleanup_loop :: "int64 \<Rightarrow> Validator list \<Rightarrow> valToLastHeightMap \<Rightarrow> valToLastHeightMap" where
  "cleanup_loop removeHeight [] m = m"
| "cleanup_loop removeHeight (val # vals) m =
     cleanup_loop removeHeight vals
       (case m (val_Address val) of
          Some h \<Rightarrow> if h = removeHeight then m(val_Address val := None) else m
        | None \<Rightarrow> m)"

text \<open>
  The validators are walked only when the load returned an error (\<^verbatim>\<open>err != nil\<close>, as
  the source has it); \<^verbatim>\<open>valSet.Validators\<close> on a \<^verbatim>\<open>nil\<close> set panics.
\<close>

definition cleanupValToLastHeight :: "Pool \<Rightarrow> int64 \<Rightarrow> unit outcome \<times> Pool" where
  "cleanupValToLastHeight evpool blockHeight =
     (let removeHeight = blockHeight - MaxAgeNumBlocks (cp_Evidence (ConsensusParams (State evpool)))
      in if 1 \<le> sint removeHeight then
           (case LoadValidators (stateDB evpool) removeHeight of
              (valSet, Some err) \<Rightarrow>
                (case valSet of
                   None \<Rightarrow> (Panics NilPointerDereference, evpool)
                 | Some vals \<Rightarrow>
                     (Returns (),
                      evpool\<lparr>valToLastHeight :=
                        cleanup_loop removeHeight (Validators vals) (valToLastHeight evpool)\<rparr>))
            | (valSet, None) \<Rightarrow> (Returns (), evpool))
         else (Returns (), evpool))"

definition Update :: "Pool \<Rightarrow> Block \<Rightarrow> sm_State \<Rightarrow> unit outcome \<times> Pool" where
  "Update evpool block st =
     (if LastBlockHeight st \<noteq> blk_Height block
      then (Panics (SanityCheckFailed (LastBlockHeight st) (blk_Height block)), evpool)
      else
        (let evpool1 = evpool\<lparr>state := st\<rparr>;
             evpool2 = MarkEvidenceAsCommitted evpool1 (blk_Height block) (blk_Time block)
                         (blk_Evidence block)
         in cleanupValToLastHeight evpool2 (blk_Height block)))"

subsection \<open>NewPool\<close>

fun recordValidators :: "int64 \<Rightarrow> Validator list \<Rightarrow> valToLastHeightMap \<Rightarrow> valToLastHeightMap" where
  "recordValidators height [] m = m"
| "recordValidators height (val # vals) m =
     recordValidators height vals
       (case m (val_Address val) of
          None \<Rightarrow> m(val_Address val \<mapsto> height)
        | Some h \<Rightarrow> m)"

definition isErrNoValSetForHeight :: "error option \<Rightarrow> bool" where
  "isErrNoValSetForHeight err =
     (case err of Some (ErrNoValSetForHeight h) \<Rightarrow> True | _ \<Rightarrow> False)"

lemma sint_pred_less:
  fixes height :: int64
  assumes "1 \<le> sint height"
  shows "sint (height - 1) < sint height"
proof -
  have "sint height < 2 ^ 63"
    using sint_lt [of height] by simp
  then have "sint (height - 1) = sint height - 1"
    using assms by (simp add: sint_word_ariths signed_take_bit_int_eq_self)
  then show ?thesis
    by simp
qed

function buildValToLastHeightMap_loop ::
  "StateDB \<Rightarrow> EvidenceParams \<Rightarrow> valToLastHeightMap \<Rightarrow> int64 \<Rightarrow> int64
     \<Rightarrow> valToLastHeightMap outcome" where
  "buildValToLastHeightMap_loop db params m numBlocks height =
     (if 1 \<le> sint height \<and> sint numBlocks \<le> sint (MaxAgeNumBlocks params) then
        (case LoadValidators db height of
           (valSet, err) \<Rightarrow>
             if isErrNoValSetForHeight err then Returns m
             else
               (case valSet of
                  None \<Rightarrow> Panics NilPointerDereference
                | Some vals \<Rightarrow>
                    buildValToLastHeightMap_loop db params
                      (recordValidators height (Validators vals) m) (numBlocks + 1) (height - 1)))
      else Returns m)"
  by pat_completeness auto
termination
  by (relation "measure (\<lambda>(db, params, m, numBlocks, height). nat (sint height))")
    (auto simp: sint_pred_less)

definition buildValToLastHeightMap :: "sm_State \<Rightarrow> StateDB \<Rightarrow> valToLastHeightMap outcome" where
  "buildValToLastHeightMap st db =
     buildValToLastHeightMap_loop db (cp_Evidence (ConsensusParams st)) Map.empty 0
       (LastBlockHeight st)"

text \<open>The loop of \<^verbatim>\<open>NewPool\<close> over the pending evidence found in the store.\<close>

fun NewPool_loop :: "Pool \<Rightarrow> Evidence list \<Rightarrow> Pool" where
  "NewPool_loop pool [] = pool"
| "NewPool_loop pool (ev # evList) =
     (if IsExpired pool ev
      then NewPool_loop (pool\<lparr>store := db_Delete (store pool) (keyPending ev)\<rparr>) evList
      else NewPool_loop (pool\<lparr>evidenceList := evidenceList pool @ [ev]\<rparr>) evList)"

definition NewPool :: "StateDB \<Rightarrow> Store \<Rightarrow> BlockStore \<Rightarrow> Pool outcome" where
  "NewPool db evidenceDB bs =
     (let evidenceStore = evidenceDB;
          st = LoadState db
      in case buildValToLastHeightMap st db of
           Panics pn \<Rightarrow> Panics pn
         | Returns m \<Rightarrow>
             (let pool = \<lparr>store = evidenceStore, evidenceList = [], stateDB = db,
                          blockStore = bs, valToLastHeight = m, state = st\<rparr>;
                  evList = Store_listEvidence evidenceStore (- 1)
              in Returns (NewPool_loop pool evList)))"

subsection \<open>Example values\<close>

text \<open>
  A chain at height 100 with \<^verbatim>\<open>MaxAgeNumBlocks\<close> 10 and \<^verbatim>\<open>MaxAgeDuration\<close> 500, the
  validators \<open>A\<close> (power 10) and \<open>B\<close> (power 20), and a state database and a block
  store that hold the heights 50 to 200. They are the inputs at which the theorems below
  are instantiated.
\<close>

definition example_state :: sm_State where
  "example_state =
     \<lparr>LastBlockHeight = 100, LastBlockTime = 1000,
      ConsensusParams = \<lparr>cp_Evidence = \<lparr>MaxAgeNumBlocks = 10, MaxAgeDuration = 500\<rparr>\<rparr>\<rparr>"

definition example_validators :: ValidatorSet where
  "example_validators =
     \<lparr>Validators = [\<lparr>val_Address = ''A'', VotingPower = 10\<rparr>,
                     \<lparr>val_Address = ''B'', VotingPower = 20\<rparr>]\<rparr>"

definition example_stateDB :: StateDB where
  "example_stateDB =
     \<lparr>LoadValidators = (\<lambda>h. if 50 \<le> sint h \<and> sint h \<le> 200 then (Some example_validators, None)
                              else (None, Some (ErrNoValSetForHeight h))),
      LoadState = example_state,
      VerifyEvidence = (\<lambda>st ev header. None)\<rparr>"

definition example_blockStore :: BlockStore where
  "example_blockStore =
     \<lparr>LoadBlockMeta = (\<lambda>h. if 50 \<le> sint h \<and> sint h \<le> 200
                             then Some \<lparr>bm_Header = \<lparr>hdr_Height = h, hdr_AppHash = ''app''\<rparr>\<rparr>
                             else None)\<rparr>"

definition example_evidence :: "string \<Rightarrow> string \<Rightarrow> int64 \<Rightarrow> Time \<Rightarrow> Evidence" where
  "example_evidence digest address h t =
     \<lparr>ev_Kind = DuplicateVoteEvidence, ev_Height = h, ev_Time = t,
      ev_Address = address, ev_Hash = digest\<rparr>"

definition example_pool :: Pool where
  "example_pool =
     \<lparr>store = \<lparr>pending = [], committed = [], outqueue = []\<rparr>,
      evidenceList = [],
      stateDB = example_stateDB,
      blockStore = example_blockStore,
      valToLastHeight = [''A'' \<mapsto> 100, ''B'' \<mapsto> 100],
      state = example_state\<rparr>"

definition example_next_state :: sm_State where
  "example_next_state = example_state\<lparr>LastBlockHeight := 101, LastBlockTime := 1010\<rparr>"

definition example_block :: "Evidence list \<Rightarrow> Block" where
  "example_block evs = \<lparr>blk_Height = 101, blk_Time = 1010, blk_Evidence = evs\<rparr>"

definition example_stale_pool :: Pool where
  "example_stale_pool = example_pool\<lparr>valToLastHeight := [''A'' \<mapsto> 91, ''B'' \<mapsto> 100]\<rparr>"

definition example_composite :: "Evidence list \<Rightarrow> CompositeEvidence" where
  "example_composite units =
     \<lparr>VerifyComposite = (\<lambda>ev header valSet. None),
      Split = (\<lambda>ev header valSet m. units)\<rparr>"

definition example_conflicting_headers :: Evidence where
  "example_conflicting_headers =
     \<lparr>ev_Kind = ConflictingHeadersEvidence, ev_Height = 95, ev_Time = 950,
      ev_Address = [], ev_Hash = ''ch''\<rparr>"

definition example_stored_pool :: Pool where
  "example_stored_pool =
     example_pool\<lparr>store :=
       \<lparr>pending = [(10, example_evidence ''u1'' ''A'' 95 950)], committed = [],
        outqueue = [example_evidence ''u1'' ''A'' 95 950]\<rparr>,
       evidenceList := [example_evidence ''u1'' ''A'' 95 950]\<rparr>"

definition example_lunatic :: Evidence where
  "example_lunatic =
     \<lparr>ev_Kind = LunaticValidatorEvidence, ev_Height = 300, ev_Time = 950,
      ev_Address = ''B'', ev_Hash = ''u2''\<rparr>"

definition example_three_pool :: Pool where
  "example_three_pool =
     example_pool\<lparr>store :=
       \<lparr>pending = [(10, example_evidence ''u1'' ''A'' 95 950),
                   (20, example_evidence ''u2'' ''B'' 96 960),
                   (10, example_evidence ''u3'' ''A'' 97 970)],
        committed = [],
        outqueue = []\<rparr>\<rparr>"

definition example_evidenceDB :: Store where
  "example_evidenceDB =
     \<lparr>pending = [(10, example_evidence ''u1'' ''A'' 95 950),
                 (20, example_evidence ''u2'' ''B'' 96 960),
                 (10, example_evidence ''u3'' ''A'' 97 970),
                 (20, example_evidence ''u0'' ''B'' 60 100)],
      committed = [],
      outqueue = []\<rparr>"

section \<open>Properties\<close>

subsection \<open>Expiry\<close>

lemma sint_word_of_int_int64:
  "- (2 ^ 63) \<le> d \<Longrightarrow> d \<le> 2 ^ 63 - 1 \<Longrightarrow> sint (word_of_int d :: int64) = d"
  by (simp add: sint_sbintrunc' signed_take_bit_int_eq_self)

lemma sint_Sub_in_range:
  assumes "minDuration \<le> t - u" and "t - u \<le> maxDuration"
  shows "sint (Sub t u) = t - u"
proof -
  have "Sub t u = word_of_int (t - u)"
    using assms by (simp add: Sub_def Let_def)
  moreover have "sint (word_of_int (t - u) :: int64) = t - u"
    using assms by (intro sint_word_of_int_int64) (simp_all add: minDuration_def maxDuration_def)
  ultimately show ?thesis
    by (simp only:)
qed

text \<open>
  C1: \<^verbatim>\<open>IsExpired\<close> is true exactly when both the duration age exceeds
  \<^verbatim>\<open>MaxAgeDuration\<close> and the block-count age exceeds \<^verbatim>\<open>MaxAgeNumBlocks\<close>; a unit
  that is too old by blocks but not by duration is not expired. The ages are the ones
  the code computes: \<^verbatim>\<open>LastBlockTime.Sub(Time())\<close> and the \<^verbatim>\<open>int64\<close> difference of
  the heights.
\<close>

theorem IsExpired_conjunctive:
  "(IsExpired evpool ev \<longleftrightarrow>
      sint (MaxAgeDuration (cp_Evidence (ConsensusParams (State evpool))))
        < sint (Sub (LastBlockTime (State evpool)) (ev_Time ev))
      \<and> sint (MaxAgeNumBlocks (cp_Evidence (ConsensusParams (State evpool))))
        < sint (LastBlockHeight (State evpool) - ev_Height ev))
   \<and> (sint (MaxAgeNumBlocks (cp_Evidence (ConsensusParams (State evpool))))
         < sint (LastBlockHeight (State evpool) - ev_Height ev)
       \<and> sint (Sub (LastBlockTime (State evpool)) (ev_Time ev))
         \<le> sint (MaxAgeDuration (cp_Evidence (ConsensusParams (State evpool))))
       \<longrightarrow> \<not> IsExpired evpool ev)"
  by (auto simp: IsExpired_def Let_def)

theorem IsExpired_conjunctive_witness:
  "sint (MaxAgeNumBlocks (cp_Evidence (ConsensusParams (State example_pool))))
     < sint (LastBlockHeight (State example_pool) - ev_Height (example_evidence ''d1'' ''A'' 50 900))
   \<and> sint (Sub (LastBlockTime (State example_pool)) (ev_Time (example_evidence ''d1'' ''A'' 50 900)))
     \<le> sint (MaxAgeDuration (cp_Evidence (ConsensusParams (State example_pool))))
   \<and> \<not> IsExpired example_pool (example_evidence ''d1'' ''A'' 50 900)"
  using IsExpired_conjunctive [of example_pool "example_evidence ''d1'' ''A'' 50 900"]
  by (simp add: example_pool_def example_state_def example_evidence_def State_def Sub_def
      minDuration_def maxDuration_def)

text \<open>
  With heights that are not negative and times no further apart than a duration can
  hold, the ages are the differences of the integers.
\<close>

lemma IsExpired_int:
  assumes "0 \<le> sint (ev_Height ev)" and "0 \<le> sint (LastBlockHeight (State evpool))"
    and "minDuration \<le> LastBlockTime (State evpool) - ev_Time ev"
    and "LastBlockTime (State evpool) - ev_Time ev \<le> maxDuration"
  shows "IsExpired evpool ev \<longleftrightarrow>
     sint (MaxAgeDuration (cp_Evidence (ConsensusParams (State evpool))))
        < LastBlockTime (State evpool) - ev_Time ev
     \<and> sint (MaxAgeNumBlocks (cp_Evidence (ConsensusParams (State evpool))))
        < sint (LastBlockHeight (State evpool)) - sint (ev_Height ev)"
proof -
  have "sint (ev_Height ev) < 2 ^ 63" "sint (LastBlockHeight (State evpool)) < 2 ^ 63"
    using sint_lt [of "ev_Height ev"] sint_lt [of "LastBlockHeight (State evpool)"] by simp_all
  then have "sint (LastBlockHeight (State evpool) - ev_Height ev)
      = sint (LastBlockHeight (State evpool)) - sint (ev_Height ev)"
    using assms(1,2) by (simp add: sint_word_ariths signed_take_bit_int_eq_self)
  then show ?thesis
    using sint_Sub_in_range [OF assms(3,4)] by (simp add: IsExpired_def Let_def conj_commute)
qed

subsection \<open>Update\<close>

lemma MarkEvidenceAsCommitted_frame:
  "valToLastHeight (MarkEvidenceAsCommitted evpool h t evs) = valToLastHeight evpool"
  "stateDB (MarkEvidenceAsCommitted evpool h t evs) = stateDB evpool"
  "blockStore (MarkEvidenceAsCommitted evpool h t evs) = blockStore evpool"
  "state (MarkEvidenceAsCommitted evpool h t evs) = state evpool"
  by (simp_all add: MarkEvidenceAsCommitted_def removeEvidence_def State_def Let_def
      split: prod.splits)

text \<open>
  C4: when the height of the new state is not the height of the block, \<^verbatim>\<open>Update\<close>
  panics, and the pool is the one it was given: the state snapshot, the store (nothing
  marked committed) and the pending list are untouched.
\<close>

theorem Update_sanity_check_panics:
  "LastBlockHeight st \<noteq> blk_Height block \<Longrightarrow>
     Update evpool block st
       = (Panics (SanityCheckFailed (LastBlockHeight st) (blk_Height block)), evpool)"
  by (simp add: Update_def)

theorem Update_sanity_check_panics_witness:
  "LastBlockHeight example_state \<noteq> blk_Height (example_block [])
   \<and> Update example_pool (example_block []) example_state
       = (Panics (SanityCheckFailed 100 101), example_pool)"
  using Update_sanity_check_panics [of example_state "example_block []" example_pool]
  by (simp add: example_state_def example_block_def)

text \<open>
  C10: with matching heights, when the cutoff height is below 1 or the validator set at
  the cutoff height loads without an error, \<^verbatim>\<open>Update\<close> returns and leaves
  \<^verbatim>\<open>valToLastHeight\<close> as it was. The cutoff is computed from the parameters of the new
  state, which \<^verbatim>\<open>Update\<close> has stored by then.
\<close>

theorem Update_valToLastHeight_unchanged:
  assumes "LastBlockHeight st = blk_Height block"
    and "sint (blk_Height block - MaxAgeNumBlocks (cp_Evidence (ConsensusParams st))) < 1
         \<or> snd (LoadValidators (stateDB evpool)
                  (blk_Height block - MaxAgeNumBlocks (cp_Evidence (ConsensusParams st)))) = None"
  shows "fst (Update evpool block st) = Returns ()
         \<and> valToLastHeight (snd (Update evpool block st)) = valToLastHeight evpool"
  using assms
  by (auto simp: Update_def cleanupValToLastHeight_def Let_def State_def
      MarkEvidenceAsCommitted_frame split: prod.splits option.splits)

theorem Update_valToLastHeight_unchanged_witness:
  "LastBlockHeight example_next_state = blk_Height (example_block [])
   \<and> snd (LoadValidators (stateDB example_stale_pool)
            (blk_Height (example_block [])
               - MaxAgeNumBlocks (cp_Evidence (ConsensusParams example_next_state)))) = None
   \<and> fst (Update example_stale_pool (example_block []) example_next_state) = Returns ()
   \<and> valToLastHeight (snd (Update example_stale_pool (example_block []) example_next_state))
       = valToLastHeight example_stale_pool"
proof -
  have h1: "LastBlockHeight example_next_state = blk_Height (example_block [])"
    by (simp add: example_next_state_def example_block_def)
  have h2: "snd (LoadValidators (stateDB example_stale_pool)
            (blk_Height (example_block [])
               - MaxAgeNumBlocks (cp_Evidence (ConsensusParams example_next_state)))) = None"
    by (simp add: example_next_state_def example_block_def example_stale_pool_def
        example_pool_def example_stateDB_def example_state_def)
  from Update_valToLastHeight_unchanged [OF h1 disjI2, OF h2] h1 h2
  show ?thesis by simp
qed

text \<open>
  C2: the entry of validator \<open>A\<close> records the height 91, the cutoff of a block at
  height 101 with \<^verbatim>\<open>MaxAgeNumBlocks\<close> 10, and the validator set at height 91 loads and
  holds \<open>A\<close>. \<^verbatim>\<open>Update\<close> returns and the entry is still in the map.
\<close>

theorem Update_keeps_entry_at_cutoff:
  "blk_Height (example_block []) - MaxAgeNumBlocks (cp_Evidence (ConsensusParams example_next_state))
     = 91
   \<and> valToLastHeight example_stale_pool ''A'' = Some 91
   \<and> LoadValidators (stateDB example_stale_pool) 91 = (Some example_validators, None)
   \<and> GetByAddress example_validators ''A'' = Some \<lparr>val_Address = ''A'', VotingPower = 10\<rparr>
   \<and> fst (Update example_stale_pool (example_block []) example_next_state) = Returns ()
   \<and> valToLastHeight (snd (Update example_stale_pool (example_block []) example_next_state)) ''A''
       = Some 91"
  by (simp add: Update_def cleanupValToLastHeight_def Let_def State_def
      MarkEvidenceAsCommitted_def removeEvidence_def GetByAddress_def
      example_next_state_def example_block_def example_stale_pool_def
      example_pool_def example_stateDB_def example_state_def example_validators_def)

subsection \<open>AddEvidence: one unit\<close>

lemma Store_Has_snd [simp]: "snd (Store_Has s ev) = None"
  by (simp add: Store_Has_def)

lemma Store_addEvidence_error:
  "snd (Store_addEvidence s ev priority) = Some err \<Longrightarrow> fst (Store_addEvidence s ev priority) = s"
  by (simp add: Store_addEvidence_def split: if_splits)

lemma Store_addEvidence_ok:
  "snd (Store_addEvidence s ev priority) = None \<Longrightarrow>
     fst (Store_addEvidence s ev priority)
       = s\<lparr>pending := pending s @ [(priority, ev)], outqueue := outqueue s @ [ev]\<rparr>"
  by (simp add: Store_addEvidence_def split: if_splits)

text \<open>A unit that ends the call leaves the pool as it was, and never ends it with \<^verbatim>\<open>nil\<close>.\<close>

lemma AddEvidence_unit_Inl:
  assumes "AddEvidence_unit evpool st valSet evidence ev = Inl (r, evpool1)"
  shows "evpool1 = evpool \<and> r \<noteq> Returns None"
  using assms
  by (auto simp: AddEvidence_unit_def Store_addEvidence_error
      split: option.splits sum.splits outcome.splits if_splits)

text \<open>The ways in which a unit ends the call.\<close>

lemma AddEvidence_unit_failures:
  assumes "AddEvidence_unit evpool st valSet evidence ev = Inl (r, evpool1)"
  shows "r = Returns (Some ErrEvidenceAlreadyStored)
     \<or> r = Returns (Some (ErrNoBlockMeta (ev_Height ev)))
     \<or> (\<exists>err. r = Returns (Some (ErrFailedToVerify ev err)))
     \<or> (\<exists>err. r = Returns (Some (ErrDatabase err)))
     \<or> r = Panics NilPointerDereference"
  using assms
  by (auto simp: AddEvidence_unit_def fetchHeader_def computePriority_def
      split: option.splits sum.splits outcome.splits if_splits)

text \<open>A unit that falls through was stored as pending with its priority and pushed on the list.\<close>

lemma AddEvidence_unit_Inr:
  assumes "AddEvidence_unit evpool st valSet evidence ev = Inr evpool1"
  shows "\<exists>priority. computePriority valSet ev = Returns priority
           \<and> evpool1 = evpool
               \<lparr>store := (store evpool)
                  \<lparr>pending := pending (store evpool) @ [(priority, ev)],
                   outqueue := outqueue (store evpool) @ [ev]\<rparr>,
                evidenceList := evidenceList evpool @ [ev]\<rparr>"
  using assms
  by (auto simp: AddEvidence_unit_def Store_addEvidence_ok
      split: option.splits sum.splits outcome.splits if_splits)

lemma AddEvidence_unit_stored:
  assumes "fst (Store_Has (store evpool) evidence)"
  shows "AddEvidence_unit evpool st valSet evidence ev
           = Inl (Returns (Some ErrEvidenceAlreadyStored), evpool)"
  using assms by (simp add: AddEvidence_unit_def)

subsection \<open>AddEvidence: the loop\<close>

lemma AddEvidence_loop_append:
  "AddEvidence_loop evpool st valSet evidence (xs @ ys) =
     (case AddEvidence_loop evpool st valSet evidence xs of
        (Returns None, evpool1) \<Rightarrow> AddEvidence_loop evpool1 st valSet evidence ys
      | result \<Rightarrow> result)"
proof (induction xs arbitrary: evpool)
  case Nil
  then show ?case by simp
next
  case (Cons x xs)
  show ?case
  proof (cases "AddEvidence_unit evpool st valSet evidence x")
    case (Inl result)
    obtain r evpool1 where "result = (r, evpool1)"
      by (cases result)
    with Inl AddEvidence_unit_Inl [of evpool st valSet evidence x r evpool1] show ?thesis
      by (auto split: outcome.splits option.splits)
  next
    case (Inr evpool1)
    with Cons.IH [of evpool1] show ?thesis
      by simp
  qed
qed

text \<open>
  Whatever the outcome of the loop, the pool it leaves has the units of a prefix of the
  list appended to the pending index, each with the priority computed for it, and to the
  evidence list; the prefix is the whole list when the loop returns \<^verbatim>\<open>nil\<close>.
\<close>

lemma AddEvidence_loop_accepted:
  assumes "AddEvidence_loop evpool st valSet evidence evList = (r, evpool')"
  shows "\<exists>new k. pending (store evpool') = pending (store evpool) @ new
           \<and> evidenceList evpool' = evidenceList evpool @ map snd new
           \<and> map snd new = take k evList
           \<and> (r = Returns None \<longrightarrow> map snd new = evList)
           \<and> (\<forall>(priority, u) \<in> set new. computePriority valSet u = Returns priority)
           \<and> committed (store evpool') = committed (store evpool)
           \<and> stateDB evpool' = stateDB evpool \<and> blockStore evpool' = blockStore evpool
           \<and> valToLastHeight evpool' = valToLastHeight evpool \<and> state evpool' = state evpool"
  using assms
proof (induction evList arbitrary: evpool)
  case Nil
  then show ?case by auto
next
  case (Cons ev evList)
  show ?case
  proof (cases "AddEvidence_unit evpool st valSet evidence ev")
    case (Inl result)
    with Cons.prems have "result = (r, evpool')"
      by simp
    with Inl AddEvidence_unit_Inl [of evpool st valSet evidence ev r evpool']
    have "evpool' = evpool" and "r \<noteq> Returns None"
      by simp_all
    then have "pending (store evpool') = pending (store evpool) @ []
           \<and> evidenceList evpool' = evidenceList evpool @ map snd ([] :: (int64 \<times> Evidence) list)
           \<and> map snd ([] :: (int64 \<times> Evidence) list) = take 0 (ev # evList)
           \<and> (r = Returns None \<longrightarrow> map snd ([] :: (int64 \<times> Evidence) list) = ev # evList)
           \<and> (\<forall>(priority, u) \<in> set []. computePriority valSet u = Returns priority)
           \<and> committed (store evpool') = committed (store evpool)
           \<and> stateDB evpool' = stateDB evpool \<and> blockStore evpool' = blockStore evpool
           \<and> valToLastHeight evpool' = valToLastHeight evpool \<and> state evpool' = state evpool"
      by simp
    then show ?thesis
      by - (rule exI [where x = "[]"], rule exI [where x = 0], assumption)
  next
    case (Inr evpool1)
    from AddEvidence_unit_Inr [OF Inr] obtain priority where
      pr: "computePriority valSet ev = Returns priority" and
      p1: "evpool1 = evpool
               \<lparr>store := (store evpool)
                  \<lparr>pending := pending (store evpool) @ [(priority, ev)],
                   outqueue := outqueue (store evpool) @ [ev]\<rparr>,
                evidenceList := evidenceList evpool @ [ev]\<rparr>"
      by blast
    from Inr Cons.prems have "AddEvidence_loop evpool1 st valSet evidence evList = (r, evpool')"
      by simp
    from Cons.IH [OF this] obtain new k where
      IH: "pending (store evpool') = pending (store evpool1) @ new"
        "evidenceList evpool' = evidenceList evpool1 @ map snd new"
        "map snd new = take k evList"
        "r = Returns None \<longrightarrow> map snd new = evList"
        "\<forall>(priority, u) \<in> set new. computePriority valSet u = Returns priority"
        "committed (store evpool') = committed (store evpool1)"
        "stateDB evpool' = stateDB evpool1" "blockStore evpool' = blockStore evpool1"
        "valToLastHeight evpool' = valToLastHeight evpool1" "state evpool' = state evpool1"
      by blast
    have "pending (store evpool') = pending (store evpool) @ ((priority, ev) # new)
           \<and> evidenceList evpool' = evidenceList evpool @ map snd ((priority, ev) # new)
           \<and> map snd ((priority, ev) # new) = take (Suc k) (ev # evList)
           \<and> (r = Returns None \<longrightarrow> map snd ((priority, ev) # new) = ev # evList)
           \<and> (\<forall>(priority, u) \<in> set ((priority, ev) # new). computePriority valSet u = Returns priority)
           \<and> committed (store evpool') = committed (store evpool)
           \<and> stateDB evpool' = stateDB evpool \<and> blockStore evpool' = blockStore evpool
           \<and> valToLastHeight evpool' = valToLastHeight evpool \<and> state evpool' = state evpool"
      using IH pr by (simp add: p1)
    then show ?thesis
      by - (rule exI [where x = "(priority, ev) # new"], rule exI [where x = "Suc k"], assumption)
  qed
qed

text \<open>
  C9: for a unit that has passed the existence check, the header fetch and the
  verification, the priority step panics with a nil dereference when the validator set
  loaded for the submitted evidence does not hold the unit's address (or is itself
  \<^verbatim>\<open>nil\<close>), and the call ends there with the pool untouched; when the set holds the
  address, the step yields that validator's voting power and the unit goes on to the
  store.
\<close>

theorem priority_needs_accused_in_validator_set:
  assumes "Store_Has (store evpool) evidence = (False, None)"
    and "fetchHeader evpool ev = Inr header"
    and "VerifyEvidence (stateDB evpool) st ev header = None"
  shows "((\<forall>vals. valSet = Some vals \<longrightarrow> GetByAddress vals (ev_Address ev) = None) \<longrightarrow>
            AddEvidence_loop evpool st valSet evidence (ev # evList)
              = (Panics NilPointerDereference, evpool))
       \<and> (\<forall>vals val. valSet = Some vals \<and> GetByAddress vals (ev_Address ev) = Some val \<longrightarrow>
            computePriority valSet ev = Returns (VotingPower val)
            \<and> AddEvidence_unit evpool st valSet evidence ev
                = (case snd (Store_addEvidence (store evpool) ev (VotingPower val)) of
                     Some err \<Rightarrow>
                       Inl (Returns (Some (ErrDatabase err)),
                            evpool\<lparr>store := fst (Store_addEvidence (store evpool) ev (VotingPower val))\<rparr>)
                   | None \<Rightarrow>
                       Inr (evpool\<lparr>store := fst (Store_addEvidence (store evpool) ev (VotingPower val)),
                                   evidenceList := evidenceList evpool @ [ev]\<rparr>)))"
  using assms
  by (cases valSet) (auto simp: AddEvidence_unit_def computePriority_def split: option.splits)

theorem priority_needs_accused_in_validator_set_witness:
  "Store_Has (store example_pool) example_conflicting_headers = (False, None)
   \<and> fetchHeader example_pool (example_evidence ''u9'' ''Z'' 95 950) = Inr None
   \<and> VerifyEvidence (stateDB example_pool) example_state (example_evidence ''u9'' ''Z'' 95 950) None
       = None
   \<and> GetByAddress example_validators ''Z'' = None
   \<and> AddEvidence_loop example_pool example_state (Some example_validators)
        example_conflicting_headers [example_evidence ''u9'' ''Z'' 95 950]
       = (Panics NilPointerDereference, example_pool)
   \<and> AddEvidence (example_composite [example_evidence ''u9'' ''Z'' 95 950]) example_pool
        example_conflicting_headers
       = (Panics NilPointerDereference, example_pool)"
proof -
  let ?u = "example_evidence ''u9'' ''Z'' 95 950"
  have h1: "Store_Has (store example_pool) example_conflicting_headers = (False, None)"
    by (simp add: Store_Has_def example_pool_def)
  have h2: "fetchHeader example_pool ?u = Inr None"
    by (simp add: fetchHeader_def example_evidence_def)
  have h3: "VerifyEvidence (stateDB example_pool) example_state ?u None = None"
    by (simp add: example_pool_def example_stateDB_def)
  have h4: "GetByAddress example_validators ''Z'' = None"
    by (simp add: GetByAddress_def example_validators_def)
  have h5: "\<forall>vals. Some example_validators = Some vals \<longrightarrow> GetByAddress vals (ev_Address ?u) = None"
    using h4 by (simp add: example_evidence_def)
  have loop: "AddEvidence_loop example_pool example_state (Some example_validators)
        example_conflicting_headers [?u] = (Panics NilPointerDereference, example_pool)"
    using priority_needs_accused_in_validator_set [OF h1 h2 h3, of "Some example_validators" "[]"] h5
    by blast
  have units: "AddEvidence_units (example_composite [?u]) example_pool example_conflicting_headers
      = Inr (Some example_validators, [?u])"
    by (simp add: AddEvidence_units_def example_pool_def example_stateDB_def
        example_blockStore_def example_conflicting_headers_def isComposite_def
        example_composite_def)
  have st: "State example_pool = example_state"
    by (simp add: State_def example_pool_def)
  have "AddEvidence (example_composite [?u]) example_pool example_conflicting_headers
       = (Panics NilPointerDereference, example_pool)"
    by (simp only: AddEvidence_def Let_def units st sum.case prod.case loop)
  with h1 h2 h3 h4 loop show ?thesis
    by simp
qed

text \<open>
  C3: conflicting-headers evidence is split into the one unit \<open>u1\<close>, which the store
  already holds as pending. The existence check asks the store for the submitted
  evidence, not for the unit, so the unit goes through verification to the store, and
  the call ends with the store's error wrapped as a database error, not with
  already-stored.
\<close>

theorem AddEvidence_split_unit_not_checked:
  "AddEvidence_units (example_composite [example_evidence ''u1'' ''A'' 95 950]) example_stored_pool
       example_conflicting_headers
     = Inr (Some example_validators, [example_evidence ''u1'' ''A'' 95 950])
   \<and> fst (Store_Has (store example_stored_pool) (example_evidence ''u1'' ''A'' 95 950))
   \<and> fst (AddEvidence (example_composite [example_evidence ''u1'' ''A'' 95 950]) example_stored_pool
            example_conflicting_headers)
       = Returns (Some (ErrDatabase ErrDuplicateDigest))
   \<and> fst (AddEvidence (example_composite [example_evidence ''u1'' ''A'' 95 950]) example_stored_pool
            example_conflicting_headers)
       \<noteq> Returns (Some ErrEvidenceAlreadyStored)"
proof -
  let ?u = "example_evidence ''u1'' ''A'' 95 950"
  have units: "AddEvidence_units (example_composite [?u]) example_stored_pool
       example_conflicting_headers = Inr (Some example_validators, [?u])"
    by (simp add: AddEvidence_units_def example_stored_pool_def example_pool_def
        example_stateDB_def example_blockStore_def example_conflicting_headers_def
        isComposite_def example_composite_def)
  have has: "fst (Store_Has (store example_stored_pool) ?u)"
    by (simp add: Store_Has_def example_stored_pool_def example_evidence_def)
  have unit: "AddEvidence_unit example_stored_pool (State example_stored_pool)
        (Some example_validators) example_conflicting_headers ?u
      = Inl (Returns (Some (ErrDatabase ErrDuplicateDigest)), example_stored_pool)"
    by (simp add: AddEvidence_unit_def Store_Has_def Store_addEvidence_def fetchHeader_def
        computePriority_def GetByAddress_def example_validators_def
        example_stored_pool_def example_pool_def example_stateDB_def
        example_conflicting_headers_def example_evidence_def)
  have "AddEvidence (example_composite [?u]) example_stored_pool example_conflicting_headers
      = (Returns (Some (ErrDatabase ErrDuplicateDigest)), example_stored_pool)"
    by (simp add: AddEvidence_def Let_def units unit)
  with units has show ?thesis
    by simp
qed

text \<open>
  For evidence that is not composite the unit is the submitted evidence, and the check
  does what the claim says: a stored digest ends the call with already-stored and the
  pool is left as it was.
\<close>

lemma AddEvidence_atomic_already_stored:
  assumes "\<not> isComposite evidence"
    and "snd (LoadValidators (stateDB evpool) (ev_Height evidence)) = None"
    and "fst (Store_Has (store evpool) evidence)"
  shows "AddEvidence ce evpool evidence = (Returns (Some ErrEvidenceAlreadyStored), evpool)"
  using assms
  by (auto simp: AddEvidence_def AddEvidence_units_def AddEvidence_unit_stored Let_def
      split: prod.splits option.splits)

lemma Store_Has_pending:
  "(priority, ev) \<in> set (pending s) \<Longrightarrow> fst (Store_Has s ev)"
  by (force simp: Store_Has_def)

lemma AddEvidence_atomic_twice:
  assumes "\<not> isComposite evidence"
    and "AddEvidence ce evpool evidence = (Returns None, evpool')"
  shows "AddEvidence ce evpool' evidence = (Returns (Some ErrEvidenceAlreadyStored), evpool')"
proof -
  from assms obtain valSet where
    load: "LoadValidators (stateDB evpool) (ev_Height evidence) = (valSet, None)" and
    loop: "AddEvidence_loop evpool (State evpool) valSet evidence [evidence] = (Returns None, evpool')"
    by (auto simp: AddEvidence_def AddEvidence_units_def Let_def
        split: prod.splits option.splits sum.splits)
  from AddEvidence_loop_accepted [OF loop] obtain new where
    new: "pending (store evpool') = pending (store evpool) @ new" "map snd new = [evidence]"
      and db: "stateDB evpool' = stateDB evpool"
    by auto
  from new(2) obtain priority where "new = [(priority, evidence)]"
    by (cases new) auto
  with new(1) have "fst (Store_Has (store evpool') evidence)"
    by (simp add: Store_Has_pending [of priority])
  with assms(1) load db show ?thesis
    by (simp add: AddEvidence_atomic_already_stored)
qed

text \<open>
  C8: the units \<open>us\<close> of a submission have all been stored (the loop over them alone
  returns \<^verbatim>\<open>nil\<close> and leaves the pool \<open>evpool1\<close>), and the next unit \<open>u\<close> ends the call
  with an outcome \<open>r\<close> other than \<^verbatim>\<open>nil\<close>. Then the call ends with \<open>r\<close> at \<open>u\<close>, the
  units after \<open>u\<close> are not looked at, and the pool it leaves is \<open>evpool1\<close>: every unit of
  \<open>us\<close> is in the pending index of the store and on the evidence list.
\<close>

theorem AddEvidence_no_rollback:
  assumes "AddEvidence_units ce evpool evidence = Inr (valSet, us @ u # rest)"
    and "AddEvidence_loop evpool (State evpool) valSet evidence us = (Returns None, evpool1)"
    and "AddEvidence_unit evpool1 (State evpool) valSet evidence u = Inl (r, evpool2)"
  shows "AddEvidence ce evpool evidence = (r, evpool1)
         \<and> r \<noteq> Returns None
         \<and> evpool2 = evpool1
         \<and> (\<forall>x \<in> set us. x \<in> snd ` set (pending (store evpool1)) \<and> x \<in> set (evidenceList evpool1))"
proof -
  from AddEvidence_unit_Inl [OF assms(3)] have same: "evpool2 = evpool1" and r: "r \<noteq> Returns None"
    by simp_all
  have "AddEvidence_loop evpool (State evpool) valSet evidence (us @ u # rest) = (r, evpool1)"
    using assms(2,3) same by (simp add: AddEvidence_loop_append)
  then have call: "AddEvidence ce evpool evidence = (r, evpool1)"
    using assms(1) by (simp add: AddEvidence_def Let_def)
  from AddEvidence_loop_accepted [OF assms(2)] obtain new where
    new: "pending (store evpool1) = pending (store evpool) @ new"
      "evidenceList evpool1 = evidenceList evpool @ map snd new" "map snd new = us"
    by auto
  have "\<forall>x \<in> set us. x \<in> snd ` set (pending (store evpool1)) \<and> x \<in> set (evidenceList evpool1)"
  proof
    fix x
    assume "x \<in> set us"
    then have "x \<in> snd ` set new"
      using new(3) by (metis set_map)
    then show "x \<in> snd ` set (pending (store evpool1)) \<and> x \<in> set (evidenceList evpool1)"
      using new(1,2) by auto
  qed
  with call r same show ?thesis
    by simp
qed

theorem AddEvidence_no_rollback_witness:
  "AddEvidence_units (example_composite [example_evidence ''u1'' ''A'' 95 950, example_lunatic])
      example_pool example_conflicting_headers
     = Inr (Some example_validators, [example_evidence ''u1'' ''A'' 95 950] @ example_lunatic # [])
   \<and> fst (AddEvidence_loop example_pool (State example_pool) (Some example_validators)
        example_conflicting_headers [example_evidence ''u1'' ''A'' 95 950]) = Returns None
   \<and> fst (AddEvidence (example_composite [example_evidence ''u1'' ''A'' 95 950, example_lunatic])
        example_pool example_conflicting_headers) = Returns (Some (ErrNoBlockMeta 300))
   \<and> pending (store (snd (AddEvidence
        (example_composite [example_evidence ''u1'' ''A'' 95 950, example_lunatic])
        example_pool example_conflicting_headers))) = [(10, example_evidence ''u1'' ''A'' 95 950)]
   \<and> evidenceList (snd (AddEvidence
        (example_composite [example_evidence ''u1'' ''A'' 95 950, example_lunatic])
        example_pool example_conflicting_headers)) = [example_evidence ''u1'' ''A'' 95 950]"
proof -
  let ?u = "example_evidence ''u1'' ''A'' 95 950"
  let ?p1 = "example_pool
      \<lparr>store := \<lparr>pending = [(10, ?u)], committed = [], outqueue = [?u]\<rparr>,
       evidenceList := [?u]\<rparr>"
  have units: "AddEvidence_units (example_composite [?u, example_lunatic])
      example_pool example_conflicting_headers
     = Inr (Some example_validators, [?u] @ example_lunatic # [])"
    by (simp add: AddEvidence_units_def example_pool_def example_stateDB_def
        example_blockStore_def example_conflicting_headers_def isComposite_def
        example_composite_def)
  have first: "AddEvidence_unit example_pool (State example_pool) (Some example_validators)
      example_conflicting_headers ?u = Inr ?p1"
    by (simp add: AddEvidence_unit_def Store_Has_def Store_addEvidence_def fetchHeader_def
        computePriority_def GetByAddress_def example_validators_def
        example_pool_def example_stateDB_def
        example_conflicting_headers_def example_evidence_def)
  then have loop: "AddEvidence_loop example_pool (State example_pool) (Some example_validators)
      example_conflicting_headers [?u] = (Returns None, ?p1)"
    by simp
  have second: "AddEvidence_unit ?p1 (State example_pool) (Some example_validators)
      example_conflicting_headers example_lunatic = Inl (Returns (Some (ErrNoBlockMeta 300)), ?p1)"
    by (simp add: AddEvidence_unit_def Store_Has_def fetchHeader_def
        example_pool_def example_blockStore_def
        example_conflicting_headers_def example_evidence_def example_lunatic_def)
  from AddEvidence_no_rollback [OF units loop second] units loop show ?thesis
    by simp
qed

subsection \<open>Priority and the order of pending evidence\<close>

lemma computePriority_Returns:
  assumes "computePriority valSet ev = Returns priority"
  shows "\<exists>vals val. valSet = Some vals \<and> GetByAddress vals (ev_Address ev) = Some val
           \<and> priority = VotingPower val"
  using assms by (auto simp: computePriority_def split: option.splits)

lemma filter_eq_appendD:
  "filter P ys = as @ bs \<Longrightarrow> \<exists>us vs. ys = us @ vs \<and> filter P us = as \<and> filter P vs = bs"
proof (induction ys arbitrary: as)
  case Nil
  then show ?case by simp
next
  case (Cons y ys)
  show ?case
  proof (cases "P y")
    case False
    with Cons.prems have "filter P ys = as @ bs"
      by simp
    from Cons.IH [OF this] obtain us vs where "ys = us @ vs" "filter P us = as" "filter P vs = bs"
      by blast
    with False have "y # ys = (y # us) @ vs \<and> filter P (y # us) = as \<and> filter P vs = bs"
      by simp
    then show ?thesis by blast
  next
    case True
    show ?thesis
    proof (cases as)
      case Nil
      with Cons.prems have "y # ys = [] @ (y # ys) \<and> filter P [] = as \<and> filter P (y # ys) = bs"
        by simp
      then show ?thesis by blast
    next
      case (Cons a as')
      with True Cons.prems have "a = y" "filter P ys = as' @ bs"
        by simp_all
      from Cons.IH [OF this(2)] obtain us vs where "ys = us @ vs" "filter P us = as'" "filter P vs = bs"
        by blast
      with True Cons \<open>a = y\<close> have "y # ys = (y # us) @ vs \<and> filter P (y # us) = as \<and> filter P vs = bs"
        by simp
      then show ?thesis by blast
    qed
  qed
qed

lemma filter_keeps_order:
  assumes "filter P L = as @ x # bs @ y # cs"
  shows "\<exists>xs ys zs. L = xs @ x # ys @ y # zs"
proof -
  from filter_eq_appendD [OF assms] obtain us vs where
    L: "L = us @ vs" and vs: "filter P vs = x # bs @ y # cs"
    by blast
  from filter_eq_ConsD [OF vs] obtain us1 vs1 where
    vs1: "vs = us1 @ x # vs1" and f1: "bs @ y # cs = filter P vs1"
    by blast
  from filter_eq_appendD [OF f1 [symmetric]] obtain us2 vs2 where
    vs2: "vs1 = us2 @ vs2" and f2: "filter P vs2 = y # cs"
    by blast
  from filter_eq_ConsD [OF f2] obtain us3 vs3 where "vs2 = us3 @ y # vs3"
    by blast
  with L vs1 vs2 have "L = (us @ us1) @ x # (us2 @ us3) @ y # vs3"
    by simp
  then show ?thesis by blast
qed

text \<open>In a list sorted by a key, an element with a smaller key stands before one with a larger key.\<close>

lemma sorted_key_before:
  assumes "sorted (map f L)" and "x \<in> set L" and "y \<in> set L" and "f x < f y"
  shows "\<exists>xs ys zs. L = xs @ x # ys @ y # zs"
proof -
  from \<open>y \<in> set L\<close> obtain as bs where L: "L = as @ y # bs"
    by (auto simp: in_set_conv_decomp)
  from assms(1) have "\<forall>z \<in> set bs. f y \<le> f z"
    by (simp add: L sorted_append)
  with \<open>f x < f y\<close> have "x \<notin> set bs"
    by auto
  moreover from \<open>f x < f y\<close> have "x \<noteq> y"
    by auto
  ultimately have "x \<in> set as"
    using \<open>x \<in> set L\<close> by (simp add: L)
  then obtain xs ys where "as = xs @ x # ys"
    by (auto simp: in_set_conv_decomp)
  with L have "L = xs @ x # ys @ y # bs"
    by simp
  then show ?thesis by blast
qed

lemma pendingScan_mset: "mset (pendingScan s) = mset (pending s)"
  by (simp add: pendingScan_def)

lemma pendingScan_priority_order:
  assumes "(p1, u1) \<in> set (pending s)" and "(p2, u2) \<in> set (pending s)" and "sint p2 < sint p1"
  shows "\<exists>xs ys zs. pendingScan s = xs @ (p1, u1) # ys @ (p2, u2) # zs"
proof (rule sorted_key_before [where f = "\<lambda>(p, e). - sint p"])
  show "sorted (map (\<lambda>(p, e). - sint p) (pendingScan s))"
    by (simp add: pendingScan_def)
  show "(p1, u1) \<in> set (pendingScan s)" "(p2, u2) \<in> set (pendingScan s)"
    using assms(1,2) by (simp_all add: pendingScan_def)
  show "(case (p1, u1) of (p, e) \<Rightarrow> - sint p) < (case (p2, u2) of (p, e) \<Rightarrow> - sint p)"
    using assms(3) by simp
qed

lemma pendingScan_insertion_order:
  assumes "pending s = xs @ (p, u1) # ys @ (p, u2) # zs"
  shows "\<exists>xs' ys' zs'. pendingScan s = xs' @ (p, u1) # ys' @ (p, u2) # zs'"
proof -
  let ?f = "\<lambda>(q, e). - sint (q :: int64)"
  let ?P = "\<lambda>y. ?f y = - sint p"
  have "filter ?P (pendingScan s) = filter ?P (pending s)"
    unfolding pendingScan_def by (rule sort_key_stable)
  also have "\<dots> = filter ?P xs @ (p, u1) # filter ?P ys @ (p, u2) # filter ?P zs"
    by (simp add: assms)
  finally show ?thesis
    by (rule filter_keeps_order)
qed

lemma before_map_snd:
  assumes "L = xs @ (p1, u1) # ys @ (p2, u2) # zs"
  shows "\<exists>xs' ys' zs'. map snd L = xs' @ u1 # ys' @ u2 # zs'"
proof -
  from assms have "map snd L = map snd xs @ u1 # map snd ys @ u2 # map snd zs"
    by simp
  then show ?thesis by blast
qed

lemma PendingEvidence_all: "PendingEvidence evpool (- 1) = map snd (pendingScan (store evpool))"
  by (simp add: PendingEvidence_def Store_PendingEvidence_def Store_listEvidence_def)

text \<open>
  C7: every entry that a call of \<^verbatim>\<open>AddEvidence\<close> adds to the pending index carries as
  priority the voting power that the validator set loaded at the height of the submitted
  evidence gives to the unit's address. \<^verbatim>\<open>PendingEvidence(-1)\<close> returns all pending
  units; a unit stored with a larger priority stands before one stored with a smaller
  priority, and of two units stored with the same priority the one inserted first stands
  first.
\<close>

theorem priority_is_voting_power_and_orders_pending:
  "(AddEvidence ce evpool evidence = (r, evpool') \<longrightarrow>
      (\<exists>new. pending (store evpool') = pending (store evpool) @ new
         \<and> (\<forall>(priority, u) \<in> set new.
              \<exists>vals val. fst (LoadValidators (stateDB evpool) (ev_Height evidence)) = Some vals
                 \<and> GetByAddress vals (ev_Address u) = Some val
                 \<and> priority = VotingPower val)))
   \<and> mset (PendingEvidence evpool (- 1)) = mset (map snd (pending (store evpool)))
   \<and> (\<forall>p1 u1 p2 u2.
        (p1, u1) \<in> set (pending (store evpool)) \<and> (p2, u2) \<in> set (pending (store evpool))
        \<and> sint p2 < sint p1 \<longrightarrow>
        (\<exists>xs ys zs. PendingEvidence evpool (- 1) = xs @ u1 # ys @ u2 # zs))
   \<and> (\<forall>p u1 u2 xs ys zs.
        pending (store evpool) = xs @ (p, u1) # ys @ (p, u2) # zs \<longrightarrow>
        (\<exists>xs' ys' zs'. PendingEvidence evpool (- 1) = xs' @ u1 # ys' @ u2 # zs'))"
proof (intro conjI impI allI)
  assume call: "AddEvidence ce evpool evidence = (r, evpool')"
  show "\<exists>new. pending (store evpool') = pending (store evpool) @ new
         \<and> (\<forall>(priority, u) \<in> set new.
              \<exists>vals val. fst (LoadValidators (stateDB evpool) (ev_Height evidence)) = Some vals
                 \<and> GetByAddress vals (ev_Address u) = Some val
                 \<and> priority = VotingPower val)"
  proof (cases "AddEvidence_units ce evpool evidence")
    case (Inl err)
    with call have "evpool' = evpool"
      by (simp add: AddEvidence_def Let_def)
    then have "pending (store evpool') = pending (store evpool) @ []
         \<and> (\<forall>(priority, u) \<in> set [].
              \<exists>vals val. fst (LoadValidators (stateDB evpool) (ev_Height evidence)) = Some vals
                 \<and> GetByAddress vals (ev_Address u) = Some val
                 \<and> priority = VotingPower val)"
      by simp
    then show ?thesis
      by (rule exI [where x = "[]"])
  next
    case (Inr b)
    obtain valSet evList where b: "b = (valSet, evList)"
      by (cases b)
    from Inr b have valSet: "valSet = fst (LoadValidators (stateDB evpool) (ev_Height evidence))"
      by (auto simp: AddEvidence_units_def split: prod.splits option.splits if_splits)
    from call Inr b have "AddEvidence_loop evpool (State evpool) valSet evidence evList = (r, evpool')"
      by (simp add: AddEvidence_def Let_def)
    from AddEvidence_loop_accepted [OF this] obtain new where
      new: "pending (store evpool') = pending (store evpool) @ new"
        "\<forall>(priority, u) \<in> set new. computePriority valSet u = Returns priority"
      by blast
    have "\<forall>(priority, u) \<in> set new.
              \<exists>vals val. fst (LoadValidators (stateDB evpool) (ev_Height evidence)) = Some vals
                 \<and> GetByAddress vals (ev_Address u) = Some val
                 \<and> priority = VotingPower val"
      using new(2) computePriority_Returns [of valSet] unfolding valSet by fast
    with new(1) show ?thesis
      by blast
  qed
next
  show "mset (PendingEvidence evpool (- 1)) = mset (map snd (pending (store evpool)))"
    by (simp add: PendingEvidence_all pendingScan_mset)
next
  fix p1 u1 p2 u2
  assume "(p1, u1) \<in> set (pending (store evpool)) \<and> (p2, u2) \<in> set (pending (store evpool))
        \<and> sint p2 < sint p1"
  then obtain xs ys zs where "pendingScan (store evpool) = xs @ (p1, u1) # ys @ (p2, u2) # zs"
    using pendingScan_priority_order [of p1 u1 "store evpool" p2 u2] by blast
  then show "\<exists>xs ys zs. PendingEvidence evpool (- 1) = xs @ u1 # ys @ u2 # zs"
    unfolding PendingEvidence_all by (rule before_map_snd)
next
  fix p u1 u2 xs ys zs
  assume "pending (store evpool) = xs @ (p, u1) # ys @ (p, u2) # zs"
  from pendingScan_insertion_order [OF this]
  obtain xs' ys' zs' where "pendingScan (store evpool) = xs' @ (p, u1) # ys' @ (p, u2) # zs'"
    by blast
  then show "\<exists>xs' ys' zs'. PendingEvidence evpool (- 1) = xs' @ u1 # ys' @ u2 # zs'"
    unfolding PendingEvidence_all by (rule before_map_snd)
qed

theorem priority_is_voting_power_and_orders_pending_witness:
  "fst (AddEvidence (example_composite []) example_pool (example_evidence ''u2'' ''B'' 96 960))
     = Returns None
   \<and> fst (LoadValidators (stateDB example_pool) 96) = Some example_validators
   \<and> GetByAddress example_validators ''B'' = Some \<lparr>val_Address = ''B'', VotingPower = 20\<rparr>
   \<and> pending (store (snd (AddEvidence (example_composite []) example_pool
                             (example_evidence ''u2'' ''B'' 96 960))))
       = [(20, example_evidence ''u2'' ''B'' 96 960)]
   \<and> (\<exists>vals val. fst (LoadValidators (stateDB example_pool) 96) = Some vals
         \<and> GetByAddress vals ''B'' = Some val \<and> VotingPower val = 20)
   \<and> PendingEvidence example_three_pool (- 1)
       = [example_evidence ''u2'' ''B'' 96 960, example_evidence ''u1'' ''A'' 95 950,
          example_evidence ''u3'' ''A'' 97 970]
   \<and> (\<exists>xs ys zs. PendingEvidence example_three_pool (- 1)
         = xs @ example_evidence ''u2'' ''B'' 96 960 # ys @ example_evidence ''u1'' ''A'' 95 950 # zs)
   \<and> (\<exists>xs ys zs. PendingEvidence example_three_pool (- 1)
         = xs @ example_evidence ''u1'' ''A'' 95 950 # ys @ example_evidence ''u3'' ''A'' 97 970 # zs)"
proof -
  let ?u1 = "example_evidence ''u1'' ''A'' 95 950"
  let ?u2 = "example_evidence ''u2'' ''B'' 96 960"
  let ?u3 = "example_evidence ''u3'' ''A'' 97 970"
  let ?p1 = "example_pool
      \<lparr>store := \<lparr>pending = [(20, ?u2)], committed = [], outqueue = [?u2]\<rparr>,
       evidenceList := [?u2]\<rparr>"
  have units: "AddEvidence_units (example_composite []) example_pool ?u2
      = Inr (Some example_validators, [?u2])"
    by (simp add: AddEvidence_units_def example_pool_def example_stateDB_def
        example_evidence_def isComposite_def)
  have unit: "AddEvidence_unit example_pool (State example_pool) (Some example_validators) ?u2 ?u2
      = Inr ?p1"
    by (simp add: AddEvidence_unit_def Store_Has_def Store_addEvidence_def fetchHeader_def
        computePriority_def GetByAddress_def example_validators_def
        example_pool_def example_stateDB_def example_evidence_def)
  have call: "AddEvidence (example_composite []) example_pool ?u2 = (Returns None, ?p1)"
    by (simp add: AddEvidence_def Let_def units unit)
  have load: "fst (LoadValidators (stateDB example_pool) 96) = Some example_validators"
    by (simp add: example_pool_def example_stateDB_def)
  have get: "GetByAddress example_validators ''B'' = Some \<lparr>val_Address = ''B'', VotingPower = 20\<rparr>"
    by (simp add: GetByAddress_def example_validators_def)
  have pend: "pending (store example_three_pool) = [(10, ?u1), (20, ?u2), (10, ?u3)]"
    by (simp add: example_three_pool_def)
  have scan: "PendingEvidence example_three_pool (- 1) = [?u2, ?u1, ?u3]"
    by (simp add: PendingEvidence_def Store_PendingEvidence_def Store_listEvidence_def
        pendingScan_def pend)
  note inst = priority_is_voting_power_and_orders_pending
    [of "example_composite []" example_three_pool ?u2 "Returns None" ?p1]
  have greater: "\<exists>xs ys zs. PendingEvidence example_three_pool (- 1) = xs @ ?u2 # ys @ ?u1 # zs"
  proof -
    have "(20, ?u2) \<in> set (pending (store example_three_pool))
        \<and> (10, ?u1) \<in> set (pending (store example_three_pool)) \<and> sint (10 :: int64) < sint (20 :: int64)"
      by (simp add: pend)
    with inst show ?thesis by blast
  qed
  have tie: "\<exists>xs ys zs. PendingEvidence example_three_pool (- 1) = xs @ ?u1 # ys @ ?u3 # zs"
  proof -
    have "pending (store example_three_pool) = [] @ (10, ?u1) # [(20, ?u2)] @ (10, ?u3) # []"
      by (simp add: pend)
    with inst show ?thesis by blast
  qed
  have power: "\<exists>vals val. fst (LoadValidators (stateDB example_pool) 96) = Some vals
         \<and> GetByAddress vals ''B'' = Some val \<and> VotingPower val = 20"
  proof -
    from priority_is_voting_power_and_orders_pending
      [of "example_composite []" example_pool ?u2 "Returns None" ?p1] call
    obtain new where
      new: "pending (store ?p1) = pending (store example_pool) @ new"
        "\<forall>(priority, u) \<in> set new.
           \<exists>vals val. fst (LoadValidators (stateDB example_pool) (ev_Height ?u2)) = Some vals
              \<and> GetByAddress vals (ev_Address u) = Some val \<and> priority = VotingPower val"
      by blast
    from new(1) have "new = [(20, ?u2)]"
      by (simp add: example_pool_def)
    with new(2) show ?thesis
      by (simp add: example_evidence_def)
  qed
  from call load get scan greater tie power show ?thesis
    by simp
qed

subsection \<open>Committed evidence\<close>

lemma markCommitted_loop_result:
  "markCommitted_loop s M evs =
     (s\<lparr>pending := filter (\<lambda>(p, e). keyPending e \<notin> keyPending ` set evs) (pending s),
        committed := committed s @ map ev_Hash evs\<rparr>,
      M \<union> evMapKey ` set evs)"
proof (induction evs arbitrary: s M)
  case Nil
  then show ?case by simp
next
  case (Cons ev evs)
  have "filter (\<lambda>(p, e). keyPending e \<notin> keyPending ` set evs)
          (filter (\<lambda>(p, e). keyPending e \<noteq> keyPending ev) (pending s))
        = filter (\<lambda>(p, e). keyPending e \<notin> keyPending ` set (ev # evs)) (pending s)"
    by (auto intro: filter_cong)
  then show ?case
    by (simp add: Cons.IH Store_MarkEvidenceAsCommitted_def db_Delete_def)
qed

lemma removeEvidence_loop_filter:
  "removeEvidence_loop height lastBlockTime params M es =
     filter (\<lambda>ev. \<not> (evMapKey ev \<in> M
                       \<or> (sint (MaxAgeDuration params) < sint (Sub lastBlockTime (ev_Time ev))
                           \<and> sint (MaxAgeNumBlocks params) < sint (height - ev_Height ev)))) es"
  by (induction es) (simp_all add: Let_def)

lemma cleanupValToLastHeight_frame:
  assumes "cleanupValToLastHeight evpool h = (r, evpool')"
  shows "store evpool' = store evpool \<and> evidenceList evpool' = evidenceList evpool
         \<and> stateDB evpool' = stateDB evpool \<and> blockStore evpool' = blockStore evpool
         \<and> state evpool' = state evpool"
  using assms
  by (auto simp: cleanupValToLastHeight_def Let_def split: if_splits prod.splits option.splits)

text \<open>What a returning \<^verbatim>\<open>Update\<close> leaves in the store and on the list.\<close>

lemma Update_Returns:
  assumes "Update evpool block st = (Returns (), evpool')"
  shows "LastBlockHeight st = blk_Height block
     \<and> pending (store evpool')
         = filter (\<lambda>(p, e). keyPending e \<notin> keyPending ` set (blk_Evidence block))
             (pending (store evpool))
     \<and> committed (store evpool') = committed (store evpool) @ map ev_Hash (blk_Evidence block)
     \<and> set (evidenceList evpool')
         \<subseteq> {ev \<in> set (evidenceList evpool). evMapKey ev \<notin> evMapKey ` set (blk_Evidence block)}
     \<and> stateDB evpool' = stateDB evpool \<and> blockStore evpool' = blockStore evpool
     \<and> state evpool' = st"
proof -
  from assms have heights: "LastBlockHeight st = blk_Height block"
    by (auto simp: Update_def split: if_splits)
  let ?p2 = "MarkEvidenceAsCommitted (evpool\<lparr>state := st\<rparr>) (blk_Height block) (blk_Time block)
              (blk_Evidence block)"
  from assms heights have "cleanupValToLastHeight ?p2 (blk_Height block) = (Returns (), evpool')"
    by (simp add: Update_def Let_def)
  from cleanupValToLastHeight_frame [OF this]
  have frame: "store evpool' = store ?p2" "evidenceList evpool' = evidenceList ?p2"
    "stateDB evpool' = stateDB ?p2" "blockStore evpool' = blockStore ?p2" "state evpool' = state ?p2"
    by simp_all
  have "pending (store ?p2)
         = filter (\<lambda>(p, e). keyPending e \<notin> keyPending ` set (blk_Evidence block))
             (pending (store evpool))"
    and "committed (store ?p2) = committed (store evpool) @ map ev_Hash (blk_Evidence block)"
    and "set (evidenceList ?p2)
         \<subseteq> {ev \<in> set (evidenceList evpool). evMapKey ev \<notin> evMapKey ` set (blk_Evidence block)}"
    and "stateDB ?p2 = stateDB evpool" and "blockStore ?p2 = blockStore evpool"
    and "state ?p2 = st"
    by (auto simp: MarkEvidenceAsCommitted_def removeEvidence_def markCommitted_loop_result
        removeEvidence_loop_filter Let_def State_def)
  with frame heights show ?thesis
    by simp
qed

lemma Store_Has_committed:
  "ev_Hash ev \<in> set (committed s) \<Longrightarrow> fst (Store_Has s ev)"
  by (simp add: Store_Has_def)

text \<open>A call of \<^verbatim>\<open>AddEvidence\<close> for evidence that the store knows changes nothing.\<close>

lemma AddEvidence_known:
  assumes "fst (Store_Has (store evpool) evidence)"
  shows "snd (AddEvidence ce evpool evidence) = evpool
     \<and> (\<forall>valSet units. AddEvidence_units ce evpool evidence = Inr (valSet, units) \<and> units \<noteq> [] \<longrightarrow>
          fst (AddEvidence ce evpool evidence) = Returns (Some ErrEvidenceAlreadyStored))"
proof (cases "AddEvidence_units ce evpool evidence")
  case (Inl err)
  then show ?thesis
    by (simp add: AddEvidence_def Let_def)
next
  case (Inr b)
  obtain valSet units where b: "b = (valSet, units)"
    by (cases b)
  show ?thesis
  proof (cases units)
    case Nil
    with Inr b show ?thesis
      by (simp add: AddEvidence_def Let_def)
  next
    case (Cons u us)
    with Inr b assms show ?thesis
      by (simp add: AddEvidence_def Let_def AddEvidence_unit_stored)
  qed
qed

lemma Update_frame:
  "stateDB (snd (Update evpool block st)) = stateDB evpool"
  "blockStore (snd (Update evpool block st)) = blockStore evpool"
proof -
  obtain r evpool' where c: "cleanupValToLastHeight
      (MarkEvidenceAsCommitted (evpool\<lparr>state := st\<rparr>) (blk_Height block) (blk_Time block)
         (blk_Evidence block)) (blk_Height block) = (r, evpool')"
    by (cases "cleanupValToLastHeight
      (MarkEvidenceAsCommitted (evpool\<lparr>state := st\<rparr>) (blk_Height block) (blk_Time block)
         (blk_Evidence block)) (blk_Height block)")
  from cleanupValToLastHeight_frame [OF c]
  show "stateDB (snd (Update evpool block st)) = stateDB evpool"
    and "blockStore (snd (Update evpool block st)) = blockStore evpool"
    by (simp_all add: Update_def Let_def c MarkEvidenceAsCommitted_frame)
qed

text \<open>
  \<^verbatim>\<open>AddEvidence\<close> loads the validator set at the height of the evidence before it asks
  the store: a call that returns \<^verbatim>\<open>nil\<close> has loaded it, and a call whose load fails
  returns the load error and leaves the pool as it is.
\<close>

lemma AddEvidence_accepted_loads:
  assumes "AddEvidence ce evpool evidence = (Returns None, evpool')"
  shows "snd (LoadValidators (stateDB evpool) (ev_Height evidence)) = None"
  using assms
  by (auto simp: AddEvidence_def AddEvidence_units_def Let_def split: prod.splits option.splits)

lemma AddEvidence_load_error:
  assumes "LoadValidators (stateDB evpool) (ev_Height evidence) = (valSet, Some err)"
  shows "AddEvidence ce evpool evidence
           = (Returns (Some (ErrCantLoadValidators (ev_Height evidence) err)), evpool)"
  using assms by (simp add: AddEvidence_def AddEvidence_units_def Let_def)

text \<open>
  C5: for a unit \<open>U\<close> of the block given to an \<^verbatim>\<open>Update\<close> that returns (so the heights
  match), \<^verbatim>\<open>PendingEvidence(-1)\<close> no longer holds \<open>U\<close>, the evidence list no longer
  holds \<open>U\<close>, and a later \<^verbatim>\<open>AddEvidence(U)\<close> never puts \<open>U\<close> back: it leaves the pool
  as it is. Re-submitting a unit that \<^verbatim>\<open>AddEvidence\<close> had accepted on a pool with this
  state database returns already-stored. So does every call for a unit whose validator
  set loads, and every call that reaches the loop with at least one unit.
\<close>

theorem Update_commits_evidence:
  assumes "U \<in> set (blk_Evidence block)"
    and "Update evpool block st = (Returns (), evpool')"
  shows "U \<notin> set (PendingEvidence evpool' (- 1))
     \<and> U \<notin> set (evidenceList evpool')
     \<and> snd (AddEvidence ce evpool' U) = evpool'
     \<and> (\<forall>ce0 evpool0 evpool1.
          \<not> isComposite U \<and> AddEvidence ce0 evpool0 U = (Returns None, evpool1)
          \<and> stateDB evpool0 = stateDB evpool \<longrightarrow>
          AddEvidence ce evpool' U = (Returns (Some ErrEvidenceAlreadyStored), evpool'))
     \<and> (\<not> isComposite U \<and> snd (LoadValidators (stateDB evpool') (ev_Height U)) = None \<longrightarrow>
          AddEvidence ce evpool' U = (Returns (Some ErrEvidenceAlreadyStored), evpool'))
     \<and> (\<forall>valSet units. AddEvidence_units ce evpool' U = Inr (valSet, units) \<and> units \<noteq> [] \<longrightarrow>
          AddEvidence ce evpool' U = (Returns (Some ErrEvidenceAlreadyStored), evpool'))"
proof -
  note upd = Update_Returns [OF assms(2)]
  have "\<forall>(p, e) \<in> set (pending (store evpool')). keyPending e \<noteq> keyPending U"
    using upd assms(1) by auto
  then have "U \<notin> snd ` set (pending (store evpool'))"
    by force
  then have pend: "U \<notin> set (PendingEvidence evpool' (- 1))"
    by (simp add: PendingEvidence_all pendingScan_def)
  have list: "U \<notin> set (evidenceList evpool')"
    using upd assms(1) by auto
  have "ev_Hash U \<in> set (committed (store evpool'))"
    using upd assms(1) by simp
  then have known: "fst (Store_Has (store evpool') U)"
    by (rule Store_Has_committed)
  have db: "stateDB evpool' = stateDB evpool"
    using upd by simp
  have atomic: "AddEvidence ce evpool' U = (Returns (Some ErrEvidenceAlreadyStored), evpool')"
    if "\<not> isComposite U" and "snd (LoadValidators (stateDB evpool') (ev_Height U)) = None"
    using that known by (rule AddEvidence_atomic_already_stored)
  have again: "AddEvidence ce evpool' U = (Returns (Some ErrEvidenceAlreadyStored), evpool')"
    if "\<not> isComposite U" and "AddEvidence ce0 evpool0 U = (Returns None, evpool1)"
      and "stateDB evpool0 = stateDB evpool" for ce0 evpool0 evpool1
  proof -
    from AddEvidence_accepted_loads [OF that(2)] that(3) db
    have "snd (LoadValidators (stateDB evpool') (ev_Height U)) = None"
      by simp
    with that(1) show ?thesis
      by (rule atomic)
  qed
  have reached: "AddEvidence ce evpool' U = (Returns (Some ErrEvidenceAlreadyStored), evpool')"
    if "AddEvidence_units ce evpool' U = Inr (valSet, units)" and "units \<noteq> []" for valSet units
    using AddEvidence_known [OF known, of ce] that by (simp add: prod_eq_iff)
  from pend list AddEvidence_known [OF known, of ce] atomic again reached show ?thesis
    by blast
qed

theorem Update_commits_evidence_witness:
  "\<not> isComposite (example_evidence ''u1'' ''A'' 95 950)
   \<and> AddEvidence (example_composite []) example_pool (example_evidence ''u1'' ''A'' 95 950)
       = (Returns None, example_stored_pool)
   \<and> example_evidence ''u1'' ''A'' 95 950 \<in> set (PendingEvidence example_stored_pool (- 1))
   \<and> example_evidence ''u1'' ''A'' 95 950 \<in> set (evidenceList example_stored_pool)
   \<and> example_evidence ''u1'' ''A'' 95 950
       \<in> set (blk_Evidence (example_block [example_evidence ''u1'' ''A'' 95 950]))
   \<and> fst (Update example_stored_pool (example_block [example_evidence ''u1'' ''A'' 95 950])
        example_next_state) = Returns ()
   \<and> example_evidence ''u1'' ''A'' 95 950
       \<notin> set (PendingEvidence (snd (Update example_stored_pool
            (example_block [example_evidence ''u1'' ''A'' 95 950]) example_next_state)) (- 1))
   \<and> example_evidence ''u1'' ''A'' 95 950
       \<notin> set (evidenceList (snd (Update example_stored_pool
            (example_block [example_evidence ''u1'' ''A'' 95 950]) example_next_state)))
   \<and> AddEvidence (example_composite [])
        (snd (Update example_stored_pool (example_block [example_evidence ''u1'' ''A'' 95 950])
           example_next_state))
        (example_evidence ''u1'' ''A'' 95 950)
       = (Returns (Some ErrEvidenceAlreadyStored),
          snd (Update example_stored_pool (example_block [example_evidence ''u1'' ''A'' 95 950])
            example_next_state))"
proof -
  let ?U = "example_evidence ''u1'' ''A'' 95 950"
  let ?upd = "Update example_stored_pool (example_block [?U]) example_next_state"
  have unit: "\<not> isComposite ?U"
    by (simp add: isComposite_def example_evidence_def)
  have units: "AddEvidence_units (example_composite []) example_pool ?U
      = Inr (Some example_validators, [?U])"
    by (simp add: AddEvidence_units_def example_pool_def example_stateDB_def
        example_evidence_def isComposite_def)
  have body: "AddEvidence_unit example_pool (State example_pool) (Some example_validators) ?U ?U
      = Inr example_stored_pool"
    by (simp add: AddEvidence_unit_def Store_Has_def Store_addEvidence_def fetchHeader_def
        computePriority_def GetByAddress_def example_validators_def example_stored_pool_def
        example_pool_def example_stateDB_def example_evidence_def)
  have first: "AddEvidence (example_composite []) example_pool ?U = (Returns None, example_stored_pool)"
    by (simp add: AddEvidence_def Let_def units body)
  have db: "stateDB example_pool = stateDB example_stored_pool"
    by (simp add: example_stored_pool_def)
  have before: "?U \<in> set (PendingEvidence example_stored_pool (- 1))"
    "?U \<in> set (evidenceList example_stored_pool)"
    by (simp_all add: PendingEvidence_all pendingScan_def example_stored_pool_def)
  have mem: "?U \<in> set (blk_Evidence (example_block [?U]))"
    by (simp add: example_block_def)
  have ret: "fst ?upd = Returns ()"
    by (simp add: Update_def Let_def cleanupValToLastHeight_def State_def
        MarkEvidenceAsCommitted_frame example_next_state_def example_block_def
        example_stored_pool_def example_pool_def example_stateDB_def example_state_def)
  then have upd: "?upd = (Returns (), snd ?upd)"
    by (simp add: prod_eq_iff)
  from Update_commits_evidence [OF mem upd, of "example_composite []"] unit first db
  have "?U \<notin> set (PendingEvidence (snd ?upd) (- 1))" "?U \<notin> set (evidenceList (snd ?upd))"
    "AddEvidence (example_composite []) (snd ?upd) ?U
       = (Returns (Some ErrEvidenceAlreadyStored), snd ?upd)"
    by blast+
  with unit first before mem ret show ?thesis
    by simp
qed

subsection \<open>NewPool\<close>

lemma IsExpired_state:
  "state pool' = state pool \<Longrightarrow> IsExpired pool' ev = IsExpired pool ev"
  by (simp add: IsExpired_def State_def)

lemma pending_db_Delete:
  "pending (db_Delete s k) = filter (\<lambda>(p, e). keyPending e \<noteq> k) (pending s)"
  by (simp add: db_Delete_def)

lemma foldl_db_Delete_pending:
  "pending (foldl db_Delete s keys) = filter (\<lambda>(p, e). keyPending e \<notin> set keys) (pending s)"
proof (induction keys arbitrary: s)
  case Nil
  then show ?case by simp
next
  case (Cons k keys)
  have "pending (foldl db_Delete s (k # keys)) = pending (foldl db_Delete (db_Delete s k) keys)"
    by simp
  also have "\<dots> = filter (\<lambda>(p, e). keyPending e \<notin> set keys) (pending (db_Delete s k))"
    by (rule Cons.IH)
  also have "\<dots> = filter (\<lambda>(p, e). keyPending e \<notin> set keys)
                    (filter (\<lambda>(p, e). keyPending e \<noteq> k) (pending s))"
    by (simp only: pending_db_Delete)
  also have "\<dots> = filter (\<lambda>(p, e). keyPending e \<notin> set (k # keys)) (pending s)"
    by (auto intro: filter_cong)
  finally show ?case .
qed

lemma NewPool_loop_result:
  "NewPool_loop pool evList =
     pool\<lparr>store := foldl db_Delete (store pool) (map keyPending (filter (IsExpired pool) evList)),
          evidenceList := evidenceList pool @ filter (\<lambda>ev. \<not> IsExpired pool ev) evList\<rparr>"
proof (induction evList arbitrary: pool)
  case Nil
  then show ?case by simp
next
  case (Cons ev evList)
  have a: "IsExpired (pool\<lparr>store := s\<rparr>) = IsExpired pool" for s
    by (rule ext) (simp add: IsExpired_def State_def)
  have b: "IsExpired (pool\<lparr>evidenceList := l\<rparr>) = IsExpired pool" for l
    by (rule ext) (simp add: IsExpired_def State_def)
  show ?case
    by (simp add: Cons.IH a b)
qed

lemma Store_listEvidence_all: "set (Store_listEvidence s (- 1)) = snd ` set (pending s)"
  by (simp add: Store_listEvidence_def pendingScan_def)

text \<open>
  C6: the pool that \<^verbatim>\<open>NewPool\<close> returns holds the loaded state; its evidence list is
  the pending entries of the store, in the order of the scan, without the expired ones;
  the pending index has lost the records under the key of an expired pending entry, and
  only those, so no expired entry has a pending record left.
\<close>

theorem NewPool_loads_pending:
  assumes "NewPool db evidenceDB bs = Returns pool"
  shows "state pool = LoadState db
     \<and> evidenceList pool
         = filter (\<lambda>ev. \<not> IsExpired pool ev) (Store_listEvidence evidenceDB (- 1))
     \<and> (\<forall>ev \<in> set (evidenceList pool). \<not> IsExpired pool ev)
     \<and> pending (store pool)
         = filter (\<lambda>(p, e). \<forall>(q, x) \<in> set (pending evidenceDB).
                      IsExpired pool x \<longrightarrow> keyPending e \<noteq> keyPending x)
             (pending evidenceDB)
     \<and> (\<forall>(p, e) \<in> set (pending evidenceDB). IsExpired pool e \<longrightarrow> (p, e) \<notin> set (pending (store pool)))"
proof -
  from assms obtain m where
    pool: "pool = NewPool_loop
        \<lparr>store = evidenceDB, evidenceList = [], stateDB = db, blockStore = bs,
         valToLastHeight = m, state = LoadState db\<rparr>
        (Store_listEvidence evidenceDB (- 1))"
    by (auto simp: NewPool_def Let_def split: outcome.splits)
  let ?p0 = "\<lparr>store = evidenceDB, evidenceList = [], stateDB = db, blockStore = bs,
         valToLastHeight = m, state = LoadState db\<rparr>"
  have st: "state pool = LoadState db"
    by (simp add: pool NewPool_loop_result)
  then have exp: "IsExpired pool = IsExpired ?p0"
    by (intro ext IsExpired_state) simp
  have list: "evidenceList pool
         = filter (\<lambda>ev. \<not> IsExpired pool ev) (Store_listEvidence evidenceDB (- 1))"
    unfolding exp by (simp add: pool NewPool_loop_result)
  have "pending (store pool)
      = filter (\<lambda>(p, e). keyPending e
            \<notin> set (map keyPending (filter (IsExpired pool) (Store_listEvidence evidenceDB (- 1)))))
          (pending evidenceDB)"
    unfolding exp by (simp add: pool NewPool_loop_result foldl_db_Delete_pending)
  also have "\<dots> = filter (\<lambda>(p, e). \<forall>(q, x) \<in> set (pending evidenceDB).
                      IsExpired pool x \<longrightarrow> keyPending e \<noteq> keyPending x)
             (pending evidenceDB)"
  proof (rule filter_cong [OF refl])
    fix y
    assume "y \<in> set (pending evidenceDB)"
    obtain p e where y: "y = (p, e)"
      by (cases y)
    have "keyPending e \<in> keyPending ` {x \<in> snd ` set (pending evidenceDB). IsExpired pool x}
        \<longleftrightarrow> (\<exists>(q, x) \<in> set (pending evidenceDB). IsExpired pool x \<and> keyPending e = keyPending x)"
      by force
    then show "(case y of (p, e) \<Rightarrow> keyPending e
            \<notin> set (map keyPending (filter (IsExpired pool) (Store_listEvidence evidenceDB (- 1)))))
        = (case y of (p, e) \<Rightarrow> \<forall>(q, x) \<in> set (pending evidenceDB).
                      IsExpired pool x \<longrightarrow> keyPending e \<noteq> keyPending x)"
      by (auto simp: y Store_listEvidence_all)
  qed
  finally have pend: "pending (store pool)
         = filter (\<lambda>(p, e). \<forall>(q, x) \<in> set (pending evidenceDB).
                      IsExpired pool x \<longrightarrow> keyPending e \<noteq> keyPending x)
             (pending evidenceDB)" .
  have gone: "\<forall>(p, e) \<in> set (pending evidenceDB). IsExpired pool e \<longrightarrow> (p, e) \<notin> set (pending (store pool))"
    unfolding pend by auto
  from st list pend gone show ?thesis
    by simp
qed


text \<open>
  \<^verbatim>\<open>buildValToLastHeightMap\<close> returns when every load that yields no validator set
  reports that there is none for the height; it panics on a \<^verbatim>\<open>nil\<close> set otherwise.
\<close>

lemma buildValToLastHeightMap_loop_returns:
  assumes "\<And>h err. LoadValidators db h = (None, err) \<Longrightarrow> isErrNoValSetForHeight err"
  shows "\<exists>m'. buildValToLastHeightMap_loop db params m numBlocks height = Returns m'"
  using assms
proof (induction db params m numBlocks height rule: buildValToLastHeightMap_loop.induct)
  case (1 db params m numBlocks height)
  show ?case
  proof (cases "1 \<le> sint height \<and> sint numBlocks \<le> sint (MaxAgeNumBlocks params)")
    case False
    then show ?thesis
      by (subst buildValToLastHeightMap_loop.simps) auto
  next
    case True
    obtain valSet err where load: "LoadValidators db height = (valSet, err)"
      by (cases "LoadValidators db height")
    show ?thesis
    proof (cases "isErrNoValSetForHeight err")
      case True
      with \<open>1 \<le> sint height \<and> sint numBlocks \<le> sint (MaxAgeNumBlocks params)\<close> load
      show ?thesis
        by (subst buildValToLastHeightMap_loop.simps) auto
    next
      case False
      have "valSet \<noteq> None"
      proof
        assume "valSet = None"
        with load have "LoadValidators db height = (None, err)"
          by simp
        from "1.prems" [OF this] False show False
          by simp
      qed
      then obtain vals where vals: "valSet = Some vals"
        by (cases valSet) auto
      have "\<exists>m'. buildValToLastHeightMap_loop db params
          (recordValidators height (Validators vals) m) (numBlocks + 1) (height - 1) = Returns m'"
      proof (rule "1.IH" [OF True load [symmetric] False vals])
        fix h err
        assume "LoadValidators db h = (None, err)"
        then show "isErrNoValSetForHeight err"
          by (rule "1.prems")
      qed
      then obtain m' where "buildValToLastHeightMap_loop db params
          (recordValidators height (Validators vals) m) (numBlocks + 1) (height - 1) = Returns m'"
        by blast
      with True load False vals show ?thesis
        by (subst buildValToLastHeightMap_loop.simps) auto
    qed
  qed
qed

lemma NewPool_returns:
  assumes "\<And>h err. LoadValidators db h = (None, err) \<Longrightarrow> isErrNoValSetForHeight err"
  shows "\<exists>pool. NewPool db evidenceDB bs = Returns pool"
proof -
  have "\<exists>m. buildValToLastHeightMap (LoadState db) db = Returns m"
    unfolding buildValToLastHeightMap_def
    by (rule buildValToLastHeightMap_loop_returns) (rule assms)
  then obtain m where "buildValToLastHeightMap (LoadState db) db = Returns m"
    by blast
  then show ?thesis
    by (simp add: NewPool_def Let_def)
qed

theorem NewPool_loads_pending_witness:
  "(case NewPool example_stateDB example_evidenceDB example_blockStore of
      Panics pn \<Rightarrow> False
    | Returns pool \<Rightarrow>
        IsExpired pool (example_evidence ''u0'' ''B'' 60 100)
        \<and> evidenceList pool
            = [example_evidence ''u2'' ''B'' 96 960, example_evidence ''u1'' ''A'' 95 950,
               example_evidence ''u3'' ''A'' 97 970]
        \<and> pending (store pool)
            = [(10, example_evidence ''u1'' ''A'' 95 950), (20, example_evidence ''u2'' ''B'' 96 960),
               (10, example_evidence ''u3'' ''A'' 97 970)])"
proof -
  have "\<exists>pool. NewPool example_stateDB example_evidenceDB example_blockStore = Returns pool"
    by (rule NewPool_returns) (auto simp: example_stateDB_def isErrNoValSetForHeight_def split: if_splits)
  then obtain pool where pool: "NewPool example_stateDB example_evidenceDB example_blockStore = Returns pool"
    by blast
  note facts = NewPool_loads_pending [OF pool]
  from facts have st: "State pool = example_state"
    by (simp add: State_def example_stateDB_def)
  have exp: "IsExpired pool ev \<longleftrightarrow> 10 < sint (100 - ev_Height ev) \<and> 500 < sint (Sub 1000 (ev_Time ev))" for ev
    by (simp add: IsExpired_def st example_state_def)
  have scan: "Store_listEvidence example_evidenceDB (- 1)
      = [example_evidence ''u2'' ''B'' 96 960, example_evidence ''u0'' ''B'' 60 100,
         example_evidence ''u1'' ''A'' 95 950, example_evidence ''u3'' ''A'' 97 970]"
    by (simp add: Store_listEvidence_def pendingScan_def example_evidenceDB_def)
  have old: "IsExpired pool (example_evidence ''u0'' ''B'' 60 100)"
    by (simp add: exp example_evidence_def Sub_def minDuration_def maxDuration_def)
  have list: "evidenceList pool
            = [example_evidence ''u2'' ''B'' 96 960, example_evidence ''u1'' ''A'' 95 950,
               example_evidence ''u3'' ''A'' 97 970]"
    using facts
    by (simp add: scan exp example_evidence_def Sub_def minDuration_def maxDuration_def)
  have pend: "pending (store pool)
            = [(10, example_evidence ''u1'' ''A'' 95 950), (20, example_evidence ''u2'' ''B'' 96 960),
               (10, example_evidence ''u3'' ''A'' 97 970)]"
    using facts
    by (simp add: exp example_evidenceDB_def keyPending_def example_evidence_def Sub_def
        minDuration_def maxDuration_def)
  from old list pend show ?thesis
    by (simp add: pool)
qed

end
